theory Spec2Isabelle
  imports Complex_Main
begin

unbundle bit_operations_syntax

section \<open>Failures and machine integers\<close>

text \<open>
  A Go panic aborts the call: it is the failure \<open>Panic\<close> of the model. \<open>Starved\<close> is the
  model's second failure: a loop that draws random numbers until one is accepted has used
  up the finite tape of random bytes it was given, so the call has not returned. A
  returned \<open>error\<close> is not a failure: the call returns it, a \<open>string option\<close>, together with
  the state it leaves. Unsigned 64-bit integers are natural numbers; where the source can
  wrap around (a \<open>len - 1\<close> of an empty slice, a \<open>level + 1\<close>, a sum of two residues, a
  difference of two levels) the reduction modulo \<open>2 ^ 64\<close> is written out.
\<close>

datatype failure = Panic string | Starved

definition u64 :: "nat \<Rightarrow> nat" where
  "u64 x = x mod 2 ^ 64"

text \<open>
  \<open>lastIndex n\<close> is \<open>uint64(n - 1)\<close> for a slice length \<open>n\<close> (an empty slice gives
  \<open>2 ^ 64 - 1\<close>), and \<open>rowCount level\<close> is the bound \<open>level + 1\<close> of the loops over rows.
\<close>

definition lastIndex :: "nat \<Rightarrow> nat" where
  "lastIndex n = u64 (n + (2 ^ 64 - 1))"

definition rowCount :: "nat \<Rightarrow> nat" where
  "rowCount level = u64 (level + 1)"

definition bindF :: "failure + 'a \<Rightarrow> ('a \<Rightarrow> failure + 'b) \<Rightarrow> failure + 'b" where
  "bindF m f = (case m of Inl e \<Rightarrow> Inl e | Inr x \<Rightarrow> f x)"

definition idx :: "'a list \<Rightarrow> nat \<Rightarrow> failure + 'a" where
  "idx xs i = (if i < length xs then Inr (xs ! i) else Inl (Panic ''index out of range''))"

section \<open>Package ring: residue rows and level-restricted operations\<close>

text \<open>
  A polynomial is a matrix of residues, one row per modulus. Its \<open>Coeffs\<close> is a Go slice of
  rows: \<open>Coeffs\<close> holds the rows inside the slice's length, \<open>Spare\<close> the rows of the backing
  array between the length and the capacity, which a reslice can bring back.
\<close>

record Ring =
  N :: nat
  Modulus :: "nat list"

record Poly =
  Coeffs :: "nat list list"
  Spare :: "nat list list"

text \<open>
  Modelled from the spec: \<open>CRed\<close> is the conditional reduction of section 4.1, which
  subtracts \<open>q\<close> at most once from a value known to be below \<open>2q\<close>.
\<close>

definition CRed :: "nat \<Rightarrow> nat \<Rightarrow> nat" where
  "CRed a q = (if q \<le> a then a - q else a)"

text \<open>
  The inner loop \<open>for j := 0; j < N; j++ { p3tmp[j] = f(p1tmp[j], p2tmp[j]) }\<close> over one row:
  it panics when a row is shorter than \<open>N\<close> and leaves the receiver's entries from \<open>N\<close> on
  as they were.
\<close>

definition rowOp2 ::
  "nat \<Rightarrow> (nat \<Rightarrow> nat \<Rightarrow> nat) \<Rightarrow> nat list \<Rightarrow> nat list \<Rightarrow> nat list \<Rightarrow> failure + nat list" where
  "rowOp2 n f a b c =
     (if n \<le> length a \<and> n \<le> length b \<and> n \<le> length c
      then Inr (map2 f (take n a) (take n b) @ drop n c)
      else Inl (Panic ''index out of range''))"

text \<open>
  The outer loop \<open>for i := 0; i < level+1; i++\<close> of every \<open>Lvl\<close> operation, on the rows of
  the two inputs and of the receiver, with the modulus \<open>q\<^sub>i\<close> of each row. The first
  argument is the number of rows to process. Rows of the receiver above it are untouched.
\<close>

fun lvlOp2 ::
  "nat \<Rightarrow> nat \<Rightarrow> (nat \<Rightarrow> nat \<Rightarrow> nat \<Rightarrow> nat) \<Rightarrow> nat list \<Rightarrow>
   nat list list \<Rightarrow> nat list list \<Rightarrow> nat list list \<Rightarrow> failure + nat list list" where
  "lvlOp2 0 n f qs p1 p2 p3 = Inr p3"
| "lvlOp2 (Suc k) n f (q # qs) (a # p1) (b # p2) (c # p3) =
     bindF (rowOp2 n (f q) a b c) (\<lambda>r.
     bindF (lvlOp2 k n f qs p1 p2 p3) (\<lambda>rs. Inr (r # rs)))"
| "lvlOp2 (Suc k) n f qs p1 p2 p3 = Inl (Panic ''index out of range'')"

text \<open>
  Modelled from the spec: the \<open>Lvl\<close> operations of section 4.2 (\<open>AddLvl\<close>, \<open>SubLvl\<close>,
  \<open>NegLvl\<close>, \<open>CopyLvl\<close>) operate only on the first \<open>level + 1\<close> rows, leaving higher rows
  untouched; addition is pointwise modular addition, reduced by \<open>CRed\<close>.
\<close>

definition AddLvl :: "Ring \<Rightarrow> nat \<Rightarrow> Poly \<Rightarrow> Poly \<Rightarrow> Poly \<Rightarrow> failure + Poly" where
  "AddLvl r level p1 p2 p3 =
     bindF (lvlOp2 (rowCount level) (N r) (\<lambda>q a b. CRed (u64 (a + b)) q) (Modulus r)
              (Coeffs p1) (Coeffs p2) (Coeffs p3))
       (\<lambda>rs. Inr (p3\<lparr>Coeffs := rs\<rparr>))"

definition SubLvl :: "Ring \<Rightarrow> nat \<Rightarrow> Poly \<Rightarrow> Poly \<Rightarrow> Poly \<Rightarrow> failure + Poly" where
  "SubLvl r level p1 p2 p3 =
     bindF (lvlOp2 (rowCount level) (N r) (\<lambda>q a b. CRed (u64 (u64 (a + q) + (2 ^ 64 - b mod 2 ^ 64))) q)
              (Modulus r) (Coeffs p1) (Coeffs p2) (Coeffs p3))
       (\<lambda>rs. Inr (p3\<lparr>Coeffs := rs\<rparr>))"

definition NegLvl :: "Ring \<Rightarrow> nat \<Rightarrow> Poly \<Rightarrow> Poly \<Rightarrow> failure + Poly" where
  "NegLvl r level p1 p2 =
     bindF (lvlOp2 (rowCount level) (N r) (\<lambda>q a b. u64 (q + (2 ^ 64 - a mod 2 ^ 64)))
              (Modulus r) (Coeffs p1) (Coeffs p1) (Coeffs p2))
       (\<lambda>rs. Inr (p2\<lparr>Coeffs := rs\<rparr>))"

definition CopyLvl :: "Ring \<Rightarrow> nat \<Rightarrow> Poly \<Rightarrow> Poly \<Rightarrow> failure + Poly" where
  "CopyLvl r level p0 p1 =
     bindF (lvlOp2 (rowCount level) (N r) (\<lambda>q a b. a) (replicate (rowCount level) 0)
              (Coeffs p0) (Coeffs p0) (Coeffs p1))
       (\<lambda>rs. Inr (p1\<lparr>Coeffs := rs\<rparr>))"

section \<open>Package ring: the ternary sampler\<close>

text \<open>
  The sampler holds its ring, the table \<open>matrixValues\<close> (per modulus the images of 0, 1 and
  -1) and the Hamming weight \<open>hw\<close> of the sparse mode. The PRNG is a tape of random bytes,
  read from the front: \<open>Clock\<close> fills a buffer from it.

  Modelled from the spec: \<open>MForm\<close> is the Montgomery-form conversion of section 4.1 and the
  glossary, \<open>a \<cdot> R mod q\<close>, with \<open>R = 2 ^ 64\<close> for 64-bit words. \<open>randInt32\<close> is not under
  \<open>src/\<close> either: it draws four bytes, reads them as a 32-bit number and masks it.
  \<open>Len64\<close> is \<open>bits.Len64\<close> of the Go library, the number of bits of its argument.
\<close>

record TernarySampler =
  baseRing :: Ring
  matrixValues :: "nat list list"
  hw :: nat

definition MForm :: "nat \<Rightarrow> nat \<Rightarrow> nat" where
  "MForm a q = (a * 2 ^ 64) mod q"

definition initializeMatrix :: "Ring \<Rightarrow> bool \<Rightarrow> nat list list" where
  "initializeMatrix r montgomery =
     map (\<lambda>Qi. if montgomery then [0, MForm 1 Qi, MForm (u64 (Qi + (2 ^ 64 - 1))) Qi]
               else [0, 1, u64 (Qi + (2 ^ 64 - 1))]) (Modulus r)"

definition NewTernarySamplerSparse :: "Ring \<Rightarrow> nat \<Rightarrow> bool \<Rightarrow> TernarySampler" where
  "NewTernarySamplerSparse r h montgomery =
     \<lparr>baseRing = r, matrixValues = initializeMatrix r montgomery, hw = h\<rparr>"

fun Len64 :: "nat \<Rightarrow> nat" where
  "Len64 x = (if x = 0 then 0 else Suc (Len64 (x div 2)))"

declare Len64.simps [simp del]

fun randInt32 :: "nat list \<Rightarrow> nat \<Rightarrow> (nat \<times> nat list) option" where
  "randInt32 (b0 # b1 # b2 # b3 # tape) msk =
     Some (msk AND (b0 * 2 ^ 24 + b1 * 2 ^ 16 + b2 * 2 ^ 8 + b3), tape)"
| "randInt32 tape msk = None"

text \<open>
  The rejection loop \<open>j = randInt32(prng, mask); for j >= N-i { j = randInt32(prng, mask) }\<close>.
  It ends on the first accepted draw; on a tape without one it starves.
\<close>

fun drawIndex :: "nat \<Rightarrow> nat \<Rightarrow> nat list \<Rightarrow> (nat \<times> nat list) option" where
  "drawIndex msk bound (b0 # b1 # b2 # b3 # tape) =
     (case randInt32 (b0 # b1 # b2 # b3 # tape) msk of
        None \<Rightarrow> None
      | Some (j, tape') \<Rightarrow> if bound \<le> j then drawIndex msk bound tape else Some (j, tape'))"
| "drawIndex msk bound tape = None"

text \<open>
  The loop \<open>for i := range Modulus { pol.Coeffs[i][x] = matrixValues[i][coeff] }\<close>: the first
  argument counts the moduli.
\<close>

fun writeRows ::
  "nat \<Rightarrow> nat list list \<Rightarrow> nat \<Rightarrow> nat \<Rightarrow> nat list list \<Rightarrow> failure + nat list list" where
  "writeRows 0 mv coeff x rows = Inr rows"
| "writeRows (Suc k) (m # mv) coeff x (row # rows) =
     (if x < length row \<and> coeff < length m
      then bindF (writeRows k mv coeff x rows) (\<lambda>rs. Inr (row[x := m ! coeff] # rs))
      else Inl (Panic ''index out of range''))"
| "writeRows (Suc k) mv coeff x rows = Inl (Panic ''index out of range'')"

text \<open>
  The main loop of \<open>sampleSparse\<close>, for \<open>i\<close> up to \<open>hw\<close>: the third argument is the number of
  iterations left. The loop keeps the slice \<open>index\<close> of positions not yet drawn, the
  random bytes of the signs with the bit pointer, the tape and the rows of the polynomial.
\<close>

fun sparseLoop ::
  "TernarySampler \<Rightarrow> nat \<Rightarrow> nat \<Rightarrow> nat list \<Rightarrow> nat list \<Rightarrow> nat \<Rightarrow> nat list \<Rightarrow> nat list list \<Rightarrow>
   failure + (nat list list \<times> nat list)" where
  "sparseLoop ts i 0 index randomBytes pointer tape rows = Inr (rows, tape)"
| "sparseLoop ts i (Suc n) index randomBytes pointer tape rows =
     (let msk = u64 (u64 (2 ^ Len64 (N (baseRing ts) - i)) + (2 ^ 64 - 1)) in
      case drawIndex msk (N (baseRing ts) - i) tape of
        None \<Rightarrow> Inl Starved
      | Some (j, tape') \<Rightarrow>
         (case randomBytes of
            [] \<Rightarrow> Inl (Panic ''index out of range'')
          | b # bs \<Rightarrow>
             (let coeff = drop_bit (i AND 7) b AND 1 in
              if j < length index
              then bindF (writeRows (length (Modulus (baseRing ts))) (matrixValues ts) coeff
                            (index ! j) rows) (\<lambda>rows'.
                     sparseLoop ts (i + 1) n (butlast (index[j := last index]))
                       (if pointer + 1 = 8 then bs else randomBytes)
                       (if pointer + 1 = 8 then 0 else pointer + 1) tape' rows')
              else Inl (Panic ''index out of range''))))"

text \<open>
  \<open>sampleSparse\<close> caps \<open>hw\<close> at \<open>N\<close> (in the sampler itself), fills \<open>ceil(hw / 8)\<close> random bytes
  and runs the loop. It returns the sampler, the polynomial and the rest of the tape.
\<close>

definition sampleSparse ::
  "TernarySampler \<Rightarrow> nat list \<Rightarrow> Poly \<Rightarrow> failure + (TernarySampler \<times> Poly \<times> nat list)" where
  "sampleSparse ts0 tape pol =
     (let ts = (if N (baseRing ts0) < hw ts0 then ts0\<lparr>hw := N (baseRing ts0)\<rparr> else ts0);
          index = [0..<N (baseRing ts)];
          nbytes = (hw ts + 7) div 8
      in if length tape < nbytes then Inl Starved
         else bindF (sparseLoop ts 0 (hw ts) index (take nbytes tape) 0 (drop nbytes tape) (Coeffs pol))
                (\<lambda>(rows, tape'). Inr (ts, pol\<lparr>Coeffs := rows\<rparr>, tape')))"

definition Read :: "TernarySampler \<Rightarrow> nat list \<Rightarrow> Poly \<Rightarrow> failure + (TernarySampler \<times> Poly \<times> nat list)" where
  "Read ts tape pol = sampleSparse ts tape pol"

text \<open>The number of nonzero residues of a row.\<close>

definition nonzeroCount :: "nat list \<Rightarrow> nat" where
  "nonzeroCount row = length (filter (\<lambda>c. c \<noteq> 0) row)"

section \<open>Package ckks: ciphertext elements\<close>

text \<open>
  An element (ciphertext or plaintext) is a list of polynomials with a scale and a domain
  flag. The scale is a \<open>float64\<close> in the source; the model takes it as a real number.
  Polynomials are owned by their element (section 3 of the spec), so two parts of two
  different elements are never the same polynomial.

  Modelled from the spec: \<open>Level\<close> is the number of active moduli minus one, read on the
  first polynomial (the source converts \<open>len - 1\<close> to \<open>uint64\<close>), and \<open>Degree\<close> is the
  number of polynomials minus one.
\<close>

record ckksElement =
  Value :: "Poly list"
  Scale :: real
  IsNTT :: bool

definition Level :: "ckksElement \<Rightarrow> nat" where
  "Level el = (case Value el of [] \<Rightarrow> 0 | p # ps \<Rightarrow> lastIndex (length (Coeffs p)))"

definition Degree :: "ckksElement \<Rightarrow> nat" where
  "Degree el = lastIndex (length (Value el))"

section \<open>Package ring: the operations behind the evaluator\<close>

text \<open>
  The arithmetic of package \<open>ring\<close> that the evaluator calls and that is not under \<open>src/\<close>
  is a parameter of the model, collected in one record of pure functions on residue
  rows: the division of one row by the last modulus (inside \<open>DivRoundByLastModulusNTT\<close>),
  the forward and inverse transform of one row, the digit decomposition and the basis
  reduction. What the operations do to their receivers (which rows they write) is
  modelled from the spec, section 4.2: a \<open>Lvl\<close> operation writes the first \<open>level + 1\<close> rows
  and leaves higher rows untouched.
\<close>

record ringLib =
  divRoundRow :: "nat \<Rightarrow> nat \<Rightarrow> nat list \<Rightarrow> nat list \<Rightarrow> nat list"
  nttRow :: "nat \<Rightarrow> nat list \<Rightarrow> nat list"
  invNTTRow :: "nat \<Rightarrow> nat list \<Rightarrow> nat list"
  decomposeRows ::
    "nat \<Rightarrow> nat \<Rightarrow> nat list list \<Rightarrow> nat list list \<Rightarrow> nat list list \<Rightarrow>
     nat list list \<times> nat list list"
  Xalpha :: "nat list"
  modDownRows ::
    "nat \<Rightarrow> nat list list \<Rightarrow> nat list list \<Rightarrow> nat list list \<Rightarrow>
     nat list list \<times> nat list list \<times> nat list list"

text \<open>
  A loop over the first rows with a function of whole rows: the receiver's row becomes
  the image of the first \<open>n\<close> entries of the input's row, its entries from \<open>n\<close> on are
  kept.
\<close>

fun lvlRows ::
  "nat \<Rightarrow> nat \<Rightarrow> (nat \<Rightarrow> nat list \<Rightarrow> nat list) \<Rightarrow> nat list \<Rightarrow>
   nat list list \<Rightarrow> nat list list \<Rightarrow> failure + nat list list" where
  "lvlRows 0 nn g qs p1 p2 = Inr p2"
| "lvlRows (Suc k) nn g (q # qs) (a # p1) (c # p2) =
     (if nn \<le> length a \<and> nn \<le> length c
      then bindF (lvlRows k nn g qs p1 p2) (\<lambda>rs. Inr ((take nn (g q (take nn a)) @ drop nn c) # rs))
      else Inl (Panic ''index out of range''))"
| "lvlRows (Suc k) nn g qs p1 p2 = Inl (Panic ''index out of range'')"

definition InvNTTLvl :: "ringLib \<Rightarrow> Ring \<Rightarrow> nat \<Rightarrow> Poly \<Rightarrow> Poly \<Rightarrow> failure + Poly" where
  "InvNTTLvl L r level p1 p2 =
     bindF (lvlRows (rowCount level) (N r) (invNTTRow L) (Modulus r) (Coeffs p1) (Coeffs p2))
       (\<lambda>rs. Inr (p2\<lparr>Coeffs := rs\<rparr>))"

definition NTT :: "ringLib \<Rightarrow> Ring \<Rightarrow> Poly \<Rightarrow> Poly \<Rightarrow> failure + Poly" where
  "NTT L r p1 p2 =
     bindF (lvlRows (length (Modulus r)) (N r) (nttRow L) (Modulus r) (Coeffs p1) (Coeffs p2))
       (\<lambda>rs. Inr (p2\<lparr>Coeffs := rs\<rparr>))"

text \<open>
  Modelled from the spec: the Montgomery reduction \<open>MRed\<close> computes \<open>a \<cdot> b \<cdot> R\<^sup>-\<^sup>1 mod q\<close>
  (section 4.1), \<open>R\<^sup>-\<^sup>1\<close> being the inverse of \<open>2 ^ 64\<close> modulo \<open>q\<close>, found by search. The
  Montgomery operations on polynomials, the reduction \<open>ReduceLvl\<close> and \<open>Zero\<close> follow.
\<close>

definition Rinv :: "nat \<Rightarrow> nat" where
  "Rinv q = (case find (\<lambda>x. (x * 2 ^ 64) mod q = 1 mod q) [0..<q] of Some x \<Rightarrow> x | None \<Rightarrow> 0)"

definition MRed :: "nat \<Rightarrow> nat \<Rightarrow> nat \<Rightarrow> nat" where
  "MRed a b q = (a * b * Rinv q) mod q"

definition MFormLvl :: "Ring \<Rightarrow> nat \<Rightarrow> Poly \<Rightarrow> Poly \<Rightarrow> failure + Poly" where
  "MFormLvl r level p1 p2 =
     bindF (lvlOp2 (rowCount level) (N r) (\<lambda>q a b. MForm a q) (Modulus r)
              (Coeffs p1) (Coeffs p1) (Coeffs p2))
       (\<lambda>rs. Inr (p2\<lparr>Coeffs := rs\<rparr>))"

definition MulCoeffsMontgomeryLvl :: "Ring \<Rightarrow> nat \<Rightarrow> Poly \<Rightarrow> Poly \<Rightarrow> Poly \<Rightarrow> failure + Poly" where
  "MulCoeffsMontgomeryLvl r level p1 p2 p3 =
     bindF (lvlOp2 (rowCount level) (N r) (\<lambda>q a b. MRed a b q) (Modulus r)
              (Coeffs p1) (Coeffs p2) (Coeffs p3))
       (\<lambda>rs. Inr (p3\<lparr>Coeffs := rs\<rparr>))"

definition MulCoeffsMontgomeryAndAddNoModLvl ::
  "Ring \<Rightarrow> nat \<Rightarrow> Poly \<Rightarrow> Poly \<Rightarrow> Poly \<Rightarrow> failure + Poly" where
  "MulCoeffsMontgomeryAndAddNoModLvl r level p1 p2 p3 =
     bindF (lvlOp2 (rowCount level) (N r) (\<lambda>q a b. MRed a b q) (Modulus r)
              (Coeffs p1) (Coeffs p2) (Coeffs p3)) (\<lambda>prod.
     bindF (lvlOp2 (rowCount level) (N r) (\<lambda>q a b. u64 (a + b)) (Modulus r)
              (Coeffs p3) prod (Coeffs p3))
       (\<lambda>rs. Inr (p3\<lparr>Coeffs := rs\<rparr>)))"

definition ReduceLvl :: "Ring \<Rightarrow> nat \<Rightarrow> Poly \<Rightarrow> Poly \<Rightarrow> failure + Poly" where
  "ReduceLvl r level p1 p2 =
     bindF (lvlOp2 (rowCount level) (N r) (\<lambda>q a b. a mod q) (Modulus r)
              (Coeffs p1) (Coeffs p1) (Coeffs p2))
       (\<lambda>rs. Inr (p2\<lparr>Coeffs := rs\<rparr>))"

definition Zero :: "Poly \<Rightarrow> Poly" where
  "Zero p = p\<lparr>Coeffs := map (map (\<lambda>c. 0)) (Coeffs p)\<rparr>"

text \<open>
  Modelled from the spec: \<open>PermuteNTTWithIndex\<close> applies the index permutation of a Galois
  automorphism (section 4.5) to every row of its input: entry \<open>j\<close> of the receiver's row
  becomes entry \<open>index[j]\<close> of the input's row.
\<close>

fun permuteRows :: "nat list \<Rightarrow> nat list list \<Rightarrow> nat list list \<Rightarrow> failure + nat list list" where
  "permuteRows index [] p2 = Inr p2"
| "permuteRows index (a # p1) (c # p2) =
     (if length a \<le> length index \<and> length a \<le> length c \<and>
         list_all (\<lambda>x. x < length a) (take (length a) index)
      then bindF (permuteRows index p1 p2)
             (\<lambda>rs. Inr ((map (\<lambda>j. a ! (index ! j)) [0..<length a] @ drop (length a) c) # rs))
      else Inl (Panic ''index out of range''))"
| "permuteRows index (a # p1) [] = Inl (Panic ''index out of range'')"

definition PermuteNTTWithIndex :: "Poly \<Rightarrow> nat list \<Rightarrow> Poly \<Rightarrow> failure + Poly" where
  "PermuteNTTWithIndex polIn index polOut =
     bindF (permuteRows index (Coeffs polIn) (Coeffs polOut)) (\<lambda>rs. Inr (polOut\<lparr>Coeffs := rs\<rparr>))"

section \<open>Package ckks: the evaluator\<close>

record Context =
  ctxN :: nat
  contextQ :: Ring
  contextP :: Ring
  ctxScale :: real
  levels :: nat
  alpha :: nat
  specialprimes :: "nat list"

record SwitchingKey =
  evakey :: "(Poly \<times> Poly) list"

record RotationKeys =
  permuteNTTLeftIndex :: "nat \<Rightarrow> nat list"
  permuteNTTRightIndex :: "nat \<Rightarrow> nat list"
  evakeyRotColLeft :: "nat \<Rightarrow> SwitchingKey option"
  evakeyRotColRight :: "nat \<Rightarrow> SwitchingKey option"

text \<open>
  The evaluator with its scratch pools. The caller's ciphertexts and plaintexts live in
  \<open>heap\<close>, a store from addresses to elements: an operand is an address, so that two
  operands are the same object exactly when their addresses are equal, and \<open>nil\<close> is an
  address that holds nothing. The element of \<open>ctxpool\<close> is the evaluator's own.
\<close>

record Evaluator =
  ckksContext :: Context
  ringpool :: "Poly list"
  keyswitchpool :: "Poly list"
  poolQ :: "Poly list"
  poolP :: "Poly list"
  ctxpool :: ckksElement
  heap :: "nat \<Rightarrow> ckksElement option"

datatype elemRef = User nat | CtxPool

definition getEl :: "Evaluator \<Rightarrow> elemRef \<Rightarrow> ckksElement" where
  "getEl ev r = (case r of
      User a \<Rightarrow> (case heap ev a of Some e \<Rightarrow> e | None \<Rightarrow> \<lparr>Value = [], Scale = 0, IsNTT = False\<rparr>)
    | CtxPool \<Rightarrow> ctxpool ev)"

definition putEl :: "Evaluator \<Rightarrow> elemRef \<Rightarrow> ckksElement \<Rightarrow> Evaluator" where
  "putEl ev r e = (case r of
      User a \<Rightarrow> ev\<lparr>heap := (heap ev)(a := Some e)\<rparr>
    | CtxPool \<Rightarrow> ev\<lparr>ctxpool := e\<rparr>)"


text \<open>
  Modelled from the spec: \<open>Copy\<close>, \<open>Resize\<close>, \<open>SetScale\<close> and \<open>DivScale\<close> of an element are not
  under \<open>src/\<close>. \<open>Copy\<close> makes the receiver a copy of its argument (the spec: the input is
  copied to the output unchanged). \<open>Resize\<close> brings the element to the given degree: it
  drops the polynomials above it, or appends zero polynomials of \<open>N\<close> residues per row at
  the element's level. \<open>DivScale\<close> divides the scale.
\<close>

definition Copy :: "ckksElement \<Rightarrow> ckksElement \<Rightarrow> ckksElement" where
  "Copy e ctxCopy = ctxCopy"

definition Resize :: "nat \<Rightarrow> ckksElement \<Rightarrow> nat \<Rightarrow> ckksElement" where
  "Resize nn e degree =
     (if degree < Degree e then e\<lparr>Value := take (degree + 1) (Value e)\<rparr>
      else e\<lparr>Value := Value e @
              replicate (degree + 1 - length (Value e))
                \<lparr>Coeffs = replicate (rowCount (Level e)) (replicate nn 0), Spare = []\<rparr>\<rparr>)"

definition SetScale :: "ckksElement \<Rightarrow> real \<Rightarrow> ckksElement" where
  "SetScale e x = e\<lparr>Scale := x\<rparr>"


text \<open>
  The reslice \<open>Coeffs = Coeffs[:k]\<close> of a Go slice: within the capacity it moves the bound
  between the rows in use and the spare rows, beyond it it panics.
\<close>

definition reslice :: "nat \<Rightarrow> Poly \<Rightarrow> failure + Poly" where
  "reslice k p =
     (if k \<le> length (Coeffs p) + length (Spare p)
      then Inr \<lparr>Coeffs = take k (Coeffs p @ Spare p), Spare = drop k (Coeffs p @ Spare p)\<rparr>
      else Inl (Panic ''slice bounds out of range''))"

fun mapF :: "('a \<Rightarrow> failure + 'b) \<Rightarrow> 'a list \<Rightarrow> failure + 'b list" where
  "mapF f [] = Inr []"
| "mapF f (x # xs) = bindF (f x) (\<lambda>y. bindF (mapF f xs) (\<lambda>ys. Inr (y # ys)))"

text \<open>
  \<open>DropLevel\<close> returns an error, and does nothing, on an element at level 0; otherwise it
  reslices every polynomial to \<open>level + 1 - levels\<close> rows, computed in \<open>uint64\<close>.
\<close>

definition DropLevel :: "Evaluator \<Rightarrow> elemRef \<Rightarrow> nat \<Rightarrow> failure + (string option \<times> Evaluator)" where
  "DropLevel ev ct0 lvls =
     (if Level (getEl ev ct0) = 0
      then Inr (Some ''cannot drop level -> ciphertext already at level 0'', ev)
      else bindF (mapF (reslice (u64 (u64 (Level (getEl ev ct0) + 1) + (2 ^ 64 - lvls mod 2 ^ 64))))
                   (Value (getEl ev ct0)))
             (\<lambda>vs. Inr (None, putEl ev ct0 ((getEl ev ct0)\<lparr>Value := vs\<rparr>))))"



section \<open>Package dckks: the collective key-switching protocol\<close>

record dckksContext =
  ringQ :: Ring
  ringP :: Ring
  ringQP :: Ring

record CKSProtocol =
  dckksContext :: dckksContext
  tmp :: Poly
  tmpDelta :: Poly
  hP :: Poly

text \<open>
  \<open>AggregateShares\<close> calls \<open>AddLvl\<close> with the level \<open>uint64(len(share1.Coeffs)-1)\<close>.
\<close>

definition AggregateShares :: "CKSProtocol \<Rightarrow> Poly \<Rightarrow> Poly \<Rightarrow> Poly \<Rightarrow> failure + Poly" where
  "AggregateShares cks share1 share2 shareOut =
     AddLvl (ringQ (dckksContext cks)) (lastIndex (length (Coeffs share1))) share1 share2 shareOut"

text \<open>
  \<open>KeySwitch\<close> sets the receiver's scale, adds the combined share to the first part and
  copies the second part. \<open>ct.Level()\<close> and \<open>Value()[i]\<close> panic on an element that lacks
  the polynomial they read.
\<close>

definition KeySwitch ::
  "CKSProtocol \<Rightarrow> Poly \<Rightarrow> ckksElement \<Rightarrow> ckksElement \<Rightarrow> failure + ckksElement" where
  "KeySwitch cks combined ct ctOut =
     bindF (idx (Value ct) 0) (\<lambda>c0.
     bindF (idx (Value ctOut) 0) (\<lambda>o0.
     bindF (AddLvl (ringQ (dckksContext cks)) (Level ct) c0 combined o0) (\<lambda>o0'.
     bindF (idx (Value ct) 1) (\<lambda>c1.
     bindF (idx (Value ctOut) 1) (\<lambda>o1.
     bindF (CopyLvl (ringQ (dckksContext cks)) (Level ct) c1 o1) (\<lambda>o1'.
       Inr (ctOut\<lparr>Value := (Value ctOut)[0 := o0', 1 := o1'], Scale := Scale ct\<rparr>)))))))"

section \<open>Well-formed inputs and closed forms\<close>

text \<open>
  A ring is well formed when its moduli are word-sized (the spec bounds them by 61 bits)
  and it has fewer than \<open>2 ^ 64\<close> of them. A polynomial is sized at \<open>k\<close> rows when it has
  exactly \<open>k\<close> rows of \<open>N\<close> residues each, and reduced when every residue is below the
  modulus of its row.
\<close>

definition wfRing :: "Ring \<Rightarrow> bool" where
  "wfRing r \<longleftrightarrow> length (Modulus r) < 2 ^ 64 \<and> (\<forall>i<length (Modulus r). Modulus r ! i < 2 ^ 63)"

definition sizedAt :: "Ring \<Rightarrow> nat \<Rightarrow> Poly \<Rightarrow> bool" where
  "sizedAt r k p \<longleftrightarrow>
     length (Coeffs p) = k \<and> k \<le> length (Modulus r) \<and> (\<forall>i<k. length (Coeffs p ! i) = N r)"

definition reducedPoly :: "Ring \<Rightarrow> Poly \<Rightarrow> bool" where
  "reducedPoly r p \<longleftrightarrow>
     (\<forall>i<length (Coeffs p). \<forall>j<length (Coeffs p ! i). Coeffs p ! i ! j < Modulus r ! i)"

text \<open>
  A receiver has room for \<open>k\<close> rows when it has at least \<open>k\<close> rows and each of the first
  \<open>k\<close> has at least \<open>N\<close> entries.
\<close>

definition roomFor :: "Ring \<Rightarrow> nat \<Rightarrow> Poly \<Rightarrow> bool" where
  "roomFor r k p \<longleftrightarrow> k \<le> length (Coeffs p) \<and> (\<forall>i<k. N r \<le> length (Coeffs p ! i))"

text \<open>
  The loop over rows in closed form: \<open>lvlOk\<close> says that no index is out of range,
  \<open>lvlRes\<close> is the receiver after the loop.
\<close>

definition lvlOk ::
  "nat \<Rightarrow> nat \<Rightarrow> nat list \<Rightarrow> nat list list \<Rightarrow> nat list list \<Rightarrow> nat list list \<Rightarrow> bool" where
  "lvlOk k n qs p1 p2 p3 \<longleftrightarrow>
     k \<le> length qs \<and> k \<le> length p1 \<and> k \<le> length p2 \<and> k \<le> length p3 \<and>
     (\<forall>i<k. n \<le> length (p1 ! i) \<and> n \<le> length (p2 ! i) \<and> n \<le> length (p3 ! i))"

definition lvlRes ::
  "nat \<Rightarrow> nat \<Rightarrow> (nat \<Rightarrow> nat \<Rightarrow> nat \<Rightarrow> nat) \<Rightarrow> nat list \<Rightarrow>
   nat list list \<Rightarrow> nat list list \<Rightarrow> nat list list \<Rightarrow> nat list list" where
  "lvlRes k n f qs p1 p2 p3 =
     map (\<lambda>i. map2 (f (qs ! i)) (take n (p1 ! i)) (take n (p2 ! i)) @ drop n (p3 ! i)) [0..<k]
     @ drop k p3"

section \<open>Concrete inputs\<close>

text \<open>A ring of degree 2 over the moduli 5 and 7, and polynomials over it.\<close>

definition exRing :: Ring where
  "exRing = \<lparr>N = 2, Modulus = [5, 7]\<rparr>"

definition exZero :: Poly where
  "exZero = \<lparr>Coeffs = [[0, 0], [0, 0]], Spare = []\<rparr>"

definition exCKS :: CKSProtocol where
  "exCKS = \<lparr>dckksContext = \<lparr>ringQ = exRing, ringP = \<lparr>N = 2, Modulus = [11]\<rparr>,
               ringQP = \<lparr>N = 2, Modulus = [5, 7, 11]\<rparr>\<rparr>,
            tmp = \<lparr>Coeffs = [[0, 0], [0, 0], [0, 0]], Spare = []\<rparr>,
            tmpDelta = exZero, hP = \<lparr>Coeffs = [[0, 0]], Spare = []\<rparr>\<rparr>"

definition exShare1 :: Poly where
  "exShare1 = \<lparr>Coeffs = [[1, 4], [6, 3]], Spare = []\<rparr>"

definition exShare2 :: Poly where
  "exShare2 = \<lparr>Coeffs = [[4, 4], [2, 6]], Spare = []\<rparr>"

definition exShare3 :: Poly where
  "exShare3 = \<lparr>Coeffs = [[3, 0], [5, 5]], Spare = []\<rparr>"

definition exShort :: Poly where
  "exShort = \<lparr>Coeffs = [[4, 4]], Spare = []\<rparr>"

text \<open>A receiver with longer rows, one with more rows, and a ciphertext of level 0.\<close>

definition exWide :: Poly where
  "exWide = \<lparr>Coeffs = [[9, 9, 9], [8, 8, 8]], Spare = []\<rparr>"

definition exTall :: Poly where
  "exTall = \<lparr>Coeffs = [[9, 9], [8, 8], [7, 7]], Spare = []\<rparr>"

definition exCtLow :: ckksElement where
  "exCtLow = \<lparr>Value = [exShort, \<lparr>Coeffs = [[2, 1]], Spare = []\<rparr>], Scale = 8, IsNTT = True\<rparr>"

definition exOutWide :: ckksElement where
  "exOutWide = \<lparr>Value = [exWide, exTall], Scale = 1, IsNTT = False\<rparr>"

definition exCt :: ckksElement where
  "exCt = \<lparr>Value = [exShare1, exShare3], Scale = 1024, IsNTT = True\<rparr>"

definition exOut :: ckksElement where
  "exOut = \<lparr>Value = [exZero, exZero], Scale = 1, IsNTT = True\<rparr>"

text \<open>
  A sparse sampler of Hamming weight 1 over a ring of degree 4 with the one modulus 5, a
  zero polynomial over that ring, and a tape: the byte of the signs, then one draw of
  four bytes.
\<close>

definition exSparseRing :: Ring where
  "exSparseRing = \<lparr>N = 4, Modulus = [5]\<rparr>"

definition exSampler :: TernarySampler where
  "exSampler = NewTernarySamplerSparse exSparseRing 1 False"

definition exSparseZero :: Poly where
  "exSparseZero = \<lparr>Coeffs = [[0, 0, 0, 0]], Spare = []\<rparr>"

definition exTapeZeroBit :: "nat list" where
  "exTapeZeroBit = [0, 0, 0, 0, 3]"

definition exTapeOneBit :: "nat list" where
  "exTapeOneBit = [1, 0, 0, 0, 3]"

section \<open>Package ckks: rescaling\<close>






section \<open>Rescaling in closed form\<close>






section \<open>A concrete evaluator\<close>





section \<open>Package ckks: key switching\<close>

text \<open>
  Reading an operand without indexing its polynomials: only a \<open>nil\<close> operand panics.
  \<open>foldF\<close> is a counted loop whose body can panic.
\<close>

definition load :: "Evaluator \<Rightarrow> nat \<Rightarrow> failure + ckksElement" where
  "load ev a = (case heap ev a of
      None \<Rightarrow> Inl (Panic ''nil pointer dereference'')
    | Some e \<Rightarrow> Inr e)"

fun foldF :: "('s \<Rightarrow> 'a \<Rightarrow> failure + 's) \<Rightarrow> 's \<Rightarrow> 'a list \<Rightarrow> failure + 's" where
  "foldF f s [] = Inr s"
| "foldF f s (x # xs) = bindF (f s x) (\<lambda>s'. foldF f s' xs)"

text \<open>
  Modelled from the spec: \<open>Reduce\<close> is \<open>ReduceLvl\<close> over all the moduli of its ring, and the
  transform of one row in place (\<open>ring.NTT\<close> on a row) writes the first \<open>N\<close> entries.
\<close>

definition Reduce :: "Ring \<Rightarrow> Poly \<Rightarrow> Poly \<Rightarrow> failure + Poly" where
  "Reduce r p1 p2 = ReduceLvl r (lastIndex (length (Modulus r))) p1 p2"

definition nttInPlace :: "ringLib \<Rightarrow> nat \<Rightarrow> nat \<Rightarrow> nat list \<Rightarrow> failure + nat list" where
  "nttInPlace L n qi row =
     (if n \<le> length row then Inr (take n (nttRow L qi (take n row)) @ drop n row)
      else Inl (Panic ''index out of range''))"

text \<open>
  \<open>decomposeAndSplitNTT\<close>: the decomposer writes \<open>c2QiQ\<close> and \<open>c2QiP\<close> (the parameter
  \<open>decomposeRows\<close>, given the level, the digit, the rows of \<open>c2InvNTT\<close> and the rows the two
  receivers hold); then each of the first \<open>level + 1\<close> rows of \<open>c2QiQ\<close> is either copied
  from \<open>c2NTT\<close>, when its index lies in the digit's range, or transformed in place; last
  \<open>c2QiP\<close> is transformed.
\<close>

definition decomposeAndSplitNTT ::
  "ringLib \<Rightarrow> Context \<Rightarrow> nat \<Rightarrow> nat \<Rightarrow> Poly \<Rightarrow> Poly \<Rightarrow> Poly \<Rightarrow> Poly \<Rightarrow> failure + (Poly \<times> Poly)" where
  "decomposeAndSplitNTT L ctx level beta c2NTT c2InvNTT c2QiQ c2QiP =
     (case decomposeRows L level beta (Coeffs c2InvNTT) (Coeffs c2QiQ) (Coeffs c2QiP) of
        (qrows, prows) \<Rightarrow>
          bindF (idx (Xalpha L) beta) (\<lambda>xa.
          bindF (foldF (\<lambda>rows x.
                   bindF (idx (Modulus (contextQ ctx)) x) (\<lambda>qi.
                     if u64 (beta * alpha ctx) \<le> x \<and> x < u64 (u64 (beta * alpha ctx) + xa)
                     then bindF (idx (Coeffs c2NTT) x) (\<lambda>p0tmp.
                          bindF (idx rows x) (\<lambda>p1tmp.
                            if N (contextQ ctx) \<le> length p0tmp \<and> N (contextQ ctx) \<le> length p1tmp
                            then Inr (rows[x := take (N (contextQ ctx)) p0tmp @
                                                drop (N (contextQ ctx)) p1tmp])
                            else Inl (Panic ''index out of range'')))
                     else bindF (idx rows x) (\<lambda>row.
                          bindF (nttInPlace L (N (contextQ ctx)) qi row) (\<lambda>row'.
                            Inr (rows[x := row'])))))
                 qrows [0..<rowCount level]) (\<lambda>qrows'.
          bindF (NTT L (contextP ctx) (c2QiP\<lparr>Coeffs := prows\<rparr>) (c2QiP\<lparr>Coeffs := prows\<rparr>)) (\<lambda>c2QiP'.
            Inr (c2QiQ\<lparr>Coeffs := qrows'\<rparr>, c2QiP')))))"

text \<open>
  The loop over the special primes inside the key switch: row \<open>j\<close> of \<open>pool2P\<close> and of
  \<open>pool3P\<close> accumulates, without reduction, the Montgomery product of row \<open>levels + j\<close> of
  the key with row \<open>j\<close> of \<open>c2QiP\<close>.
\<close>

definition rowAcc :: "nat \<Rightarrow> nat \<Rightarrow> nat list \<Rightarrow> nat list \<Rightarrow> nat list \<Rightarrow> failure + nat list" where
  "rowAcc n pj key c2tmp ptmp =
     (if n \<le> length key \<and> n \<le> length c2tmp \<and> n \<le> length ptmp
      then Inr (map (\<lambda>y. u64 (ptmp ! y + MRed (key ! y) (c2tmp ! y) pj)) [0..<n] @ drop n ptmp)
      else Inl (Panic ''index out of range''))"

definition specialLoop ::
  "Context \<Rightarrow> Poly \<Rightarrow> Poly \<Rightarrow> Poly \<Rightarrow> Poly \<times> Poly \<Rightarrow> failure + (Poly \<times> Poly)" where
  "specialLoop ctx key0 key1 c2QiP pools =
     foldF (\<lambda>(pool2P, pool3P) j.
        bindF (idx (Modulus (contextP ctx)) j) (\<lambda>pj.
        bindF (idx (Coeffs key0) (u64 (levels ctx + j))) (\<lambda>k0.
        bindF (idx (Coeffs key1) (u64 (levels ctx + j))) (\<lambda>k1.
        bindF (idx (Coeffs c2QiP) j) (\<lambda>c2tmp.
        bindF (idx (Coeffs pool2P) j) (\<lambda>p2tmp.
        bindF (idx (Coeffs pool3P) j) (\<lambda>p3tmp.
        bindF (rowAcc (N (contextP ctx)) pj k0 c2tmp p2tmp) (\<lambda>p2'.
        bindF (rowAcc (N (contextP ctx)) pj k1 c2tmp p3tmp) (\<lambda>p3'.
          Inr (pool2P\<lparr>Coeffs := (Coeffs pool2P)[j := p2']\<rparr>,
               pool3P\<lparr>Coeffs := (Coeffs pool3P)[j := p3']\<rparr>))))))))))
       pools [0..<length (specialprimes ctx)]"

text \<open>
  The state of the loop over the digits: \<open>c2QiQ\<close>, \<open>c2QiP\<close>, the four accumulators and the
  counter \<open>reduce\<close>.
\<close>

record ksState =
  c2QiQ :: Poly
  c2QiP :: Poly
  pool2Q :: Poly
  pool3Q :: Poly
  pool2P :: Poly
  pool3P :: Poly
  reduce :: nat

definition reduceAll :: "Context \<Rightarrow> nat \<Rightarrow> ksState \<Rightarrow> failure + ksState" where
  "reduceAll ctx level st =
     bindF (ReduceLvl (contextQ ctx) level (pool2Q st) (pool2Q st)) (\<lambda>p2Q.
     bindF (ReduceLvl (contextQ ctx) level (pool3Q st) (pool3Q st)) (\<lambda>p3Q.
     bindF (Reduce (contextP ctx) (pool2P st) (pool2P st)) (\<lambda>p2P.
     bindF (Reduce (contextP ctx) (pool3P st) (pool3P st)) (\<lambda>p3P.
       Inr (st\<lparr>pool2Q := p2Q, pool3Q := p3Q, pool2P := p2P, pool3P := p3P\<rparr>)))))"

definition ksDigit ::
  "ringLib \<Rightarrow> Context \<Rightarrow> nat \<Rightarrow> Poly \<Rightarrow> Poly \<Rightarrow> SwitchingKey option \<Rightarrow> ksState \<Rightarrow> nat \<Rightarrow>
   failure + ksState" where
  "ksDigit L ctx level cx c2 evk st i =
     bindF (decomposeAndSplitNTT L ctx level i cx c2 (c2QiQ st) (c2QiP st)) (\<lambda>(cQ, cP).
     (case evk of
        None \<Rightarrow> Inl (Panic ''nil pointer dereference'')
      | Some key \<Rightarrow>
          bindF (idx (evakey key) i) (\<lambda>(key0, key1).
          bindF (MulCoeffsMontgomeryAndAddNoModLvl (contextQ ctx) level key0 cQ (pool2Q st)) (\<lambda>p2Q.
          bindF (MulCoeffsMontgomeryAndAddNoModLvl (contextQ ctx) level key1 cQ (pool3Q st)) (\<lambda>p3Q.
          bindF (specialLoop ctx key0 key1 cP (pool2P st, pool3P st)) (\<lambda>(p2P, p3P).
          bindF (if reduce st AND 7 = 1
                 then reduceAll ctx level
                        (st\<lparr>c2QiQ := cQ, c2QiP := cP, pool2Q := p2Q, pool3Q := p3Q,
                            pool2P := p2P, pool3P := p3P\<rparr>)
                 else Inr (st\<lparr>c2QiQ := cQ, c2QiP := cP, pool2Q := p2Q, pool3Q := p3Q,
                              pool2P := p2P, pool3P := p3P\<rparr>)) (\<lambda>st'.
            Inr (st'\<lparr>reduce := u64 (reduce st' + 1)\<rparr>))))))))"

text \<open>
  \<open>switchKeysInPlace\<close> adds to the two polynomials of the receiver the key-switched image
  of \<open>cx\<close>. It starts by zeroing \<open>poolQ\<close> and \<open>poolP\<close>. The number of digits is
  \<open>\<lceil>(level + 1) / alpha\<rceil>\<close>, which the source computes in \<open>float64\<close>; the model computes
  it on the natural numbers (for \<open>alpha = 0\<close>, where the source converts an infinite
  float, it takes no digit). \<open>ModDownSplitedNTT\<close> is the parameter \<open>modDownRows\<close>: given
  the level and the rows of its \<open>Q\<close> part, its \<open>P\<close> part and its scratch polynomial
  \<open>keyswitchpool[0]\<close>, it gives the rows the three hold afterwards.
\<close>

definition ModDownSplitedNTT ::
  "ringLib \<Rightarrow> nat \<Rightarrow> Poly \<Rightarrow> Poly \<Rightarrow> Poly \<Rightarrow> Poly \<times> Poly \<times> Poly" where
  "ModDownSplitedNTT L level pQ pP polypool =
     (case modDownRows L level (Coeffs pQ) (Coeffs pP) (Coeffs polypool) of
        (q, p, t) \<Rightarrow> (pQ\<lparr>Coeffs := q\<rparr>, pP\<lparr>Coeffs := p\<rparr>, polypool\<lparr>Coeffs := t\<rparr>))"

definition switchKeysInPlace ::
  "ringLib \<Rightarrow> Evaluator \<Rightarrow> Poly \<Rightarrow> SwitchingKey option \<Rightarrow> elemRef \<Rightarrow> failure + Evaluator" where
  "switchKeysInPlace L ev cx evk ctOut =
     (let ctx = ckksContext ev in
      bindF (idx (Value (getEl ev ctOut)) 0) (\<lambda>v0.
      let level = lastIndex (length (Coeffs v0));
          pQ = map Zero (poolQ ev); pP = map Zero (poolP ev) in
      bindF (idx pQ 0) (\<lambda>cQ. bindF (idx pP 0) (\<lambda>cP.
      bindF (idx (keyswitchpool ev) 0) (\<lambda>c2.
      bindF (idx pQ 1) (\<lambda>p2Q. bindF (idx pP 1) (\<lambda>p2P.
      bindF (idx pQ 2) (\<lambda>p3Q. bindF (idx pP 2) (\<lambda>p3P.
      bindF (InvNTTLvl L (contextQ ctx) level cx c2) (\<lambda>c2'.
      bindF (foldF (ksDigit L ctx level cx c2' evk)
               \<lparr>c2QiQ = cQ, c2QiP = cP, pool2Q = p2Q, pool3Q = p3Q, pool2P = p2P, pool3P = p3P,
                reduce = 0\<rparr>
               [0..<(rowCount level + alpha ctx - 1) div alpha ctx]) (\<lambda>st.
      bindF (if lastIndex (reduce st) AND 7 \<noteq> 1 then reduceAll ctx level st else Inr st) (\<lambda>st.
      (case ModDownSplitedNTT L level (pool2Q st) (pool2P st) c2' of (q2, p2, t2) \<Rightarrow>
       case ModDownSplitedNTT L level (pool3Q st) (pool3P st) t2 of (q3, p3, t3) \<Rightarrow>
         bindF (idx (Value (getEl ev ctOut)) 0) (\<lambda>o0.
         bindF (AddLvl (contextQ ctx) level o0 q2 o0) (\<lambda>o0'.
         bindF (idx (Value (getEl ev ctOut)) 1) (\<lambda>o1.
         bindF (AddLvl (contextQ ctx) level o1 q3 o1) (\<lambda>o1'.
           Inr (putEl
                 (ev\<lparr>poolQ := [c2QiQ st, q2, q3] @ drop 3 pQ,
                     poolP := [c2QiP st, p2, p3] @ drop 3 pP,
                     keyswitchpool := (keyswitchpool ev)[0 := t3]\<rparr>)
                 ctOut
                 ((getEl ev ctOut)\<lparr>Value := (Value (getEl ev ctOut))[0 := o0', 1 := o1']\<rparr>)))))))))))))))))))"

section \<open>Package ckks: rotations\<close>

text \<open>
  \<open>permuteNTT\<close> permutes the two polynomials of \<open>ct0\<close> into the receiver's, or into
  \<open>ringpool[0]\<close> and \<open>ringpool[1]\<close> when the receiver is \<open>ct0\<close> itself, copies them to the
  receiver over the first \<open>min(level) + 1\<close> rows and key-switches the receiver's second
  polynomial. The operands are addresses in the store.
\<close>

definition permuteNTT ::
  "ringLib \<Rightarrow> Evaluator \<Rightarrow> nat \<Rightarrow> nat list \<Rightarrow> SwitchingKey option \<Rightarrow> nat \<Rightarrow> failure + Evaluator" where
  "permuteNTT L ev ct0 index evk ctOut =
     bindF (load ev ct0) (\<lambda>e0. bindF (load ev ctOut) (\<lambda>eo.
     bindF (if ct0 \<noteq> ctOut
            then bindF (idx (Value eo) 0) (\<lambda>o0. bindF (idx (Value eo) 1) (\<lambda>o1. Inr (o0, o1)))
            else bindF (idx (ringpool ev) 0) (\<lambda>r0. bindF (idx (ringpool ev) 1) (\<lambda>r1. Inr (r0, r1))))
       (\<lambda>(el0, el1).
     bindF (idx (Value e0) 0) (\<lambda>a0. bindF (PermuteNTTWithIndex a0 index el0) (\<lambda>el0'.
     bindF (idx (Value e0) 1) (\<lambda>a1. bindF (PermuteNTTWithIndex a1 index el1) (\<lambda>el1'.
     let ev1 = (if ct0 \<noteq> ctOut
                then putEl ev (User ctOut) (eo\<lparr>Value := (Value eo)[0 := el0', 1 := el1']\<rparr>)
                else ev\<lparr>ringpool := (ringpool ev)[0 := el0', 1 := el1']\<rparr>);
         level = min (Level (getEl ev1 (User ct0))) (Level (getEl ev1 (User ctOut)));
         eo1 = getEl ev1 (User ctOut) in
     bindF (idx (Value eo1) 0) (\<lambda>o0.
     bindF (CopyLvl (contextQ (ckksContext ev)) level el0' o0) (\<lambda>o0'.
     bindF (idx (Value eo1) 1) (\<lambda>o1.
     bindF (CopyLvl (contextQ (ckksContext ev)) level el1' o1) (\<lambda>o1'.
       switchKeysInPlace L
         (putEl ev1 (User ctOut) (eo1\<lparr>Value := (Value eo1)[0 := o0', 1 := o1']\<rparr>))
         o1' evk (User ctOut))))))))))))"

text \<open>
  The loop of \<open>rotateColumnsPow2\<close> over the bits of \<open>k\<close>, from the lowest: a set bit
  rotates the receiver in place with the key of index \<open>evakeyIndex\<close>, which doubles at
  every bit.
\<close>

function pow2Loop ::
  "ringLib \<Rightarrow> (nat \<Rightarrow> nat list) \<Rightarrow> (nat \<Rightarrow> SwitchingKey option) \<Rightarrow> nat \<Rightarrow>
   nat \<Rightarrow> nat \<Rightarrow> Evaluator \<Rightarrow> failure + Evaluator" where
  "pow2Loop L permuteNTTIndex evakeyRotCol ctOut k evakeyIndex ev =
     (if 0 < k
      then bindF (if k AND 1 = 1
                  then permuteNTT L ev ctOut (permuteNTTIndex evakeyIndex)
                         (evakeyRotCol evakeyIndex) ctOut
                  else Inr ev)
             (pow2Loop L permuteNTTIndex evakeyRotCol ctOut (drop_bit 1 k) (u64 (2 * evakeyIndex)))
      else Inr ev)"
  by pat_completeness auto
termination
  by (relation "measure (\<lambda>(L, p, e, c, k, i, ev). k)") (simp_all add: drop_bit_eq_div)

declare pow2Loop.simps [simp del]

text \<open>
  \<open>rotateColumnsPow2\<close> first copies the two polynomials of \<open>ct0\<close> to the receiver over the
  first \<open>min(level) + 1\<close> rows, then runs the loop on the receiver.
\<close>

definition copyParts :: "Evaluator \<Rightarrow> nat \<Rightarrow> nat \<Rightarrow> failure + Evaluator" where
  "copyParts ev ct0 ctOut =
     bindF (load ev ct0) (\<lambda>e0. bindF (load ev ctOut) (\<lambda>eo.
     bindF (idx (Value e0) 0) (\<lambda>a0. bindF (idx (Value eo) 0) (\<lambda>o0.
     bindF (CopyLvl (contextQ (ckksContext ev)) (min (Level e0) (Level eo)) a0 o0) (\<lambda>o0'.
     bindF (idx (Value e0) 1) (\<lambda>a1. bindF (idx (Value eo) 1) (\<lambda>o1.
     bindF (CopyLvl (contextQ (ckksContext ev)) (min (Level e0) (Level eo)) a1 o1) (\<lambda>o1'.
       Inr (putEl ev (User ctOut) (eo\<lparr>Value := (Value eo)[0 := o0', 1 := o1']\<rparr>))))))))))"

definition rotateColumnsPow2 ::
  "ringLib \<Rightarrow> Evaluator \<Rightarrow> nat \<Rightarrow> nat \<Rightarrow> (nat \<Rightarrow> nat list) \<Rightarrow> (nat \<Rightarrow> SwitchingKey option) \<Rightarrow>
   nat \<Rightarrow> failure + Evaluator" where
  "rotateColumnsPow2 L ev ct0 k permuteNTTIndex evakeyRotCol ctOut =
     bindF (copyParts ev ct0 ctOut) (pow2Loop L permuteNTTIndex evakeyRotCol ctOut k 1)"

text \<open>
  The check for the ladder of power-of-two keys, \<open>for i := 1; i < n>>1; i <<= 1\<close>. With
  \<open>n\<close> a \<open>uint64\<close>, \<open>n >> 1\<close> is below \<open>2 ^ 63\<close> and \<open>i\<close> never wraps to 0 before it reaches
  \<open>n >> 1\<close>; the model stops the loop outside these bounds.

  Modelled from the spec: \<open>HammingWeight64\<close> is the number of set bits (popcount).
\<close>

function hasPow2Rotations :: "RotationKeys \<Rightarrow> nat \<Rightarrow> nat \<Rightarrow> bool" where
  "hasPow2Rotations rk half i =
     (if i < half \<and> 0 < i \<and> half \<le> 2 ^ 63
      then (if evakeyRotColLeft rk i = None \<or> evakeyRotColRight rk i = None then False
            else hasPow2Rotations rk half (u64 (2 * i)))
      else True)"
  by pat_completeness auto
termination
proof (relation "measure (\<lambda>(rk, half, i). half - i)", goal_cases)
  case 1
  show ?case by simp
next
  case (2 rk half i)
  then have "2 * i < 2 ^ 64" by simp
  then have "u64 (2 * i) = 2 * i" by (simp add: u64_def)
  moreover have "half - 2 * i < half - i" using 2 by linarith
  ultimately show ?case by simp
qed

declare hasPow2Rotations.simps [simp del]

fun HammingWeight64 :: "nat \<Rightarrow> nat" where
  "HammingWeight64 x = (if x = 0 then 0 else x mod 2 + HammingWeight64 (x div 2))"

declare HammingWeight64.simps [simp del]

text \<open>
  The decomposition of a rotation amount into powers of two, from the lowest: the binary
  digits of \<open>k\<close> that are set, each as the power of two it stands for.
\<close>

fun bitsOf :: "nat \<Rightarrow> nat list" where
  "bitsOf k = (if k = 0 then []
               else (if odd k then [1] else []) @ map (\<lambda>b. 2 * b) (bitsOf (k div 2)))"

declare bitsOf.simps [simp del]

text \<open>
  \<open>RotateColumns\<close>. The rotation keys are a pointer, \<open>nil\<close> being \<open>None\<close>; they are read only
  when the reduced rotation is not 0.
\<close>

definition rotAmount :: "Context \<Rightarrow> nat \<Rightarrow> nat" where
  "rotAmount ctx k = k AND u64 (drop_bit 1 (ctxN ctx) + (2 ^ 64 - 1))"

definition RotateColumns ::
  "ringLib \<Rightarrow> Evaluator \<Rightarrow> nat \<Rightarrow> nat \<Rightarrow> RotationKeys option \<Rightarrow> nat \<Rightarrow> failure + Evaluator" where
  "RotateColumns L ev ct0 k evk ctOut =
     bindF (load ev ct0) (\<lambda>e0. bindF (load ev ctOut) (\<lambda>eo.
     if Degree e0 \<noteq> 1 \<or> Degree eo \<noteq> 1
     then Inl (Panic ''cannot rotate -> input and output ciphertext must be of degree 1'')
     else if rotAmount (ckksContext ev) k = 0
     then Inr (putEl ev (User ctOut) (Copy eo e0))
     else
       (case evk of
          None \<Rightarrow> Inl (Panic ''nil pointer dereference'')
        | Some rk \<Rightarrow>
            (case evakeyRotColLeft rk (rotAmount (ckksContext ev) k) of
               Some key \<Rightarrow>
                 permuteNTT L (putEl ev (User ctOut) (SetScale eo (Scale e0))) ct0
                   (permuteNTTLeftIndex rk (rotAmount (ckksContext ev) k)) (Some key) ctOut
             | None \<Rightarrow>
                 if hasPow2Rotations rk (drop_bit 1 (ctxN (ckksContext ev))) 1
                 then if HammingWeight64 (rotAmount (ckksContext ev) k) \<le>
                         HammingWeight64 (u64 (drop_bit 1 (ctxN (ckksContext ev)) +
                            (2 ^ 64 - rotAmount (ckksContext ev) k)))
                      then rotateColumnsPow2 L (putEl ev (User ctOut) (SetScale eo (Scale e0))) ct0
                             (rotAmount (ckksContext ev) k)
                             (permuteNTTLeftIndex rk) (evakeyRotColLeft rk) ctOut
                      else rotateColumnsPow2 L (putEl ev (User ctOut) (SetScale eo (Scale e0))) ct0
                             (u64 (drop_bit 1 (ctxN (ckksContext ev)) +
                                (2 ^ 64 - rotAmount (ckksContext ev) k)))
                             (permuteNTTRightIndex rk) (evakeyRotColRight rk) ctOut
                 else Inl (Panic
                   ''cannot rotate -> specific rotation and pow2 rotations have not been generated'')))))"

section \<open>A concrete evaluator for rotations\<close>



definition exZeroQP :: Poly where
  "exZeroQP = \<lparr>Coeffs = [replicate 16 0, replicate 16 0, replicate 16 0], Spare = []\<rparr>"




definition exKey :: SwitchingKey where
  "exKey = \<lparr>evakey = [(exZeroQP, exZeroQP), (exZeroQP, exZeroQP)]\<rparr>"

definition exKeysExact :: RotationKeys where
  "exKeysExact = \<lparr>permuteNTTLeftIndex = (\<lambda>i. map (\<lambda>j. (j + i) mod 16) [0..<16]),
                  permuteNTTRightIndex = (\<lambda>i. map (\<lambda>j. (j + 16 - i mod 16) mod 16) [0..<16]),
                  evakeyRotColLeft = (\<lambda>i. if i = 3 then Some exKey else None),
                  evakeyRotColRight = (\<lambda>i. None)\<rparr>"

definition exKeysLadder :: RotationKeys where
  "exKeysLadder = \<lparr>permuteNTTLeftIndex = (\<lambda>i. map (\<lambda>j. (j + i) mod 16) [0..<16]),
                   permuteNTTRightIndex = (\<lambda>i. map (\<lambda>j. (j + 16 - i mod 16) mod 16) [0..<16]),
                   evakeyRotColLeft = (\<lambda>i. if i = 1 \<or> i = 2 \<or> i = 4 then Some exKey else None),
                   evakeyRotColRight = (\<lambda>i. if i = 1 \<or> i = 2 \<or> i = 4 then Some exKey else None)\<rparr>"



section \<open>Basic facts\<close>

lemma bindF_simps:
  "bindF (Inl e) f = Inl e"
  "bindF (Inr x) f = f x"
  by (simp_all add: bindF_def)

lemma bindF_eq_Inr:
  "bindF m f = Inr y \<longleftrightarrow> (\<exists>x. m = Inr x \<and> f x = Inr y)"
  by (cases m) (simp_all add: bindF_def)

lemma lvlOp2_closed:
  "lvlOp2 k n f qs p1 p2 p3 =
     (if lvlOk k n qs p1 p2 p3 then Inr (lvlRes k n f qs p1 p2 p3)
      else Inl (Panic ''index out of range''))"
proof (induction k n f qs p1 p2 p3 rule: lvlOp2.induct)
  case (1 n f qs p1 p2 p3)
  then show ?case by (simp add: lvlOk_def lvlRes_def)
next
  case (2 k n f q qs a p1 b p2 c p3)
  have ok: "lvlOk (Suc k) n (q # qs) (a # p1) (b # p2) (c # p3) \<longleftrightarrow>
        (n \<le> length a \<and> n \<le> length b \<and> n \<le> length c) \<and> lvlOk k n qs p1 p2 p3"
    by (auto simp: lvlOk_def All_less_Suc2)
  have res: "lvlRes (Suc k) n f (q # qs) (a # p1) (b # p2) (c # p3) =
        (map2 (f q) (take n a) (take n b) @ drop n c) # lvlRes k n f qs p1 p2 p3"
    by (simp add: lvlRes_def upt_conv_Cons map_Suc_upt [symmetric] del: upt_Suc)
  show ?case
    unfolding ok res using 2 by (simp add: rowOp2_def bindF_simps)
qed (auto simp: lvlOk_def)

lemma lvlRes_length: "k \<le> length p3 \<Longrightarrow> length (lvlRes k n f qs p1 p2 p3) = length p3"
  by (simp add: lvlRes_def)

lemma lvlRes_nth:
  "i < k \<Longrightarrow> lvlRes k n f qs p1 p2 p3 ! i =
     map2 (f (qs ! i)) (take n (p1 ! i)) (take n (p2 ! i)) @ drop n (p3 ! i)"
  by (simp add: lvlRes_def nth_append)

lemma lvlRes_nth_above:
  "k \<le> i \<Longrightarrow> k \<le> length p3 \<Longrightarrow> lvlRes k n f qs p1 p2 p3 ! i = p3 ! i"
  by (simp add: lvlRes_def nth_append)

lemma lvlRes_drop: "drop k (lvlRes k n f qs p1 p2 p3) = drop k p3"
  by (simp add: lvlRes_def)

lemma lvlRes_nth_nth:
  "i < k \<Longrightarrow> j < n \<Longrightarrow> n \<le> length (p1 ! i) \<Longrightarrow> n \<le> length (p2 ! i) \<Longrightarrow>
   lvlRes k n f qs p1 p2 p3 ! i ! j = f (qs ! i) (p1 ! i ! j) (p2 ! i ! j)"
  by (simp add: lvlRes_nth nth_append)

lemma rowCount_lastIndex: "n < 2 ^ 64 \<Longrightarrow> rowCount (lastIndex n) = n"
  unfolding rowCount_def lastIndex_def
proof (cases n)
  case 0
  then show "u64 (u64 (n + (2 ^ 64 - 1)) + 1) = n" by (simp add: u64_def)
next
  case (Suc m)
  assume "n < 2 ^ 64"
  with Suc have m: "m < 2 ^ 64 - 1" by simp
  have "Suc m + (2 ^ 64 - 1) = m + 2 ^ 64" by simp
  then have "u64 (Suc m + (2 ^ 64 - 1)) = m" using m by (simp add: u64_def)
  then show "u64 (u64 (n + (2 ^ 64 - 1)) + 1) = n" using Suc m by (simp add: u64_def)
qed

lemma AddLvl_closed:
  "AddLvl r level p1 p2 p3 =
     (if lvlOk (rowCount level) (N r) (Modulus r) (Coeffs p1) (Coeffs p2) (Coeffs p3)
      then Inr (p3\<lparr>Coeffs := lvlRes (rowCount level) (N r) (\<lambda>q a b. CRed (u64 (a + b)) q)
                  (Modulus r) (Coeffs p1) (Coeffs p2) (Coeffs p3)\<rparr>)
      else Inl (Panic ''index out of range''))"
  by (simp add: AddLvl_def lvlOp2_closed bindF_simps)

lemma CopyLvl_closed:
  "CopyLvl r level p0 p1 =
     (if lvlOk (rowCount level) (N r) (replicate (rowCount level) 0) (Coeffs p0) (Coeffs p0) (Coeffs p1)
      then Inr (p1\<lparr>Coeffs := lvlRes (rowCount level) (N r) (\<lambda>q a b. a)
                  (replicate (rowCount level) 0) (Coeffs p0) (Coeffs p0) (Coeffs p1)\<rparr>)
      else Inl (Panic ''index out of range''))"
  by (simp add: CopyLvl_def lvlOp2_closed bindF_simps)

lemma CRed_add_mod:
  assumes "a < q" "b < q" "q < 2 ^ 63"
  shows "CRed (u64 (a + b)) q = (a + b) mod q"
proof -
  have "a + b < 2 ^ 64" using assms by simp
  then have u: "u64 (a + b) = a + b" by (simp add: u64_def)
  show ?thesis
  proof (cases "q \<le> a + b")
    case True
    have "a + b - q < q" using assms by simp
    then have "(a + b) mod q = a + b - q" using True by (simp add: le_mod_geq)
    then show ?thesis using True u by (simp add: CRed_def)
  next
    case False
    then show ?thesis using u by (simp add: CRed_def)
  qed
qed

lemma map2_commute: "(\<And>x y. f x y = f y x) \<Longrightarrow> map2 f xs ys = map2 f ys xs"
  by (induction xs arbitrary: ys) (auto simp: zip_Cons1 split: list.splits)

lemma map2_assoc_red:
  assumes "length xs = length ys" "length ys = length zs"
    and "\<And>j. j < length xs \<Longrightarrow> f (f (xs ! j) (ys ! j)) (zs ! j) = f (xs ! j) (f (ys ! j) (zs ! j))"
  shows "map2 f (map2 f xs ys) zs = map2 f xs (map2 f ys zs)"
  using assms by (intro nth_equalityI) simp_all

lemma CRed_add_assoc:
  assumes "a < q" "b < q" "c < q" "q < 2 ^ 63"
  shows "CRed (u64 (CRed (u64 (a + b)) q + c)) q = CRed (u64 (a + CRed (u64 (b + c)) q)) q"
proof -
  have q0: "0 < q" using assms by simp
  have "CRed (u64 (CRed (u64 (a + b)) q + c)) q = ((a + b) mod q + c) mod q"
    using assms q0 by (simp add: CRed_add_mod)
  also have "\<dots> = (a + (b + c) mod q) mod q"
    by (simp add: mod_simps add.assoc)
  also have "\<dots> = CRed (u64 (a + CRed (u64 (b + c)) q)) q"
    using assms q0 by (simp add: CRed_add_mod)
  finally show ?thesis .
qed

lemma lvlOk_sized:
  "sizedAt r k p1 \<Longrightarrow> sizedAt r k p2 \<Longrightarrow> sizedAt r k p3 \<Longrightarrow>
   lvlOk k (N r) (Modulus r) (Coeffs p1) (Coeffs p2) (Coeffs p3)"
  by (simp add: lvlOk_def sizedAt_def)

lemma lvlRes_sized:
  assumes "sizedAt r k p1" "sizedAt r k p2" "sizedAt r k p3"
  shows "lvlRes k (N r) f (Modulus r) (Coeffs p1) (Coeffs p2) (Coeffs p3) =
         map (\<lambda>i. map2 (f (Modulus r ! i)) (Coeffs p1 ! i) (Coeffs p2 ! i)) [0..<k]"
  using assms by (simp add: lvlRes_def sizedAt_def)

lemma AggregateShares_sized:
  assumes r: "length (Modulus (ringQ (dckksContext cks))) < 2 ^ 64"
    and s: "sizedAt (ringQ (dckksContext cks)) k s1" "sizedAt (ringQ (dckksContext cks)) k s2"
      "sizedAt (ringQ (dckksContext cks)) k out"
  shows "AggregateShares cks s1 s2 out =
     Inr (out\<lparr>Coeffs := map (\<lambda>i. map2 (\<lambda>a b. CRed (u64 (a + b)) (Modulus (ringQ (dckksContext cks)) ! i))
              (Coeffs s1 ! i) (Coeffs s2 ! i)) [0..<k]\<rparr>)"
proof -
  have "length (Coeffs s1) < 2 ^ 64" using r s(1) by (simp add: sizedAt_def)
  then have "rowCount (lastIndex (length (Coeffs s1))) = length (Coeffs s1)"
    by (rule rowCount_lastIndex)
  then have k: "rowCount (lastIndex (length (Coeffs s1))) = k"
    using s(1) by (simp add: sizedAt_def)
  show ?thesis
    unfolding AggregateShares_def AddLvl_closed k
    using s by (simp add: lvlOk_sized lvlRes_sized)
qed

lemma AggregateShares_commute:
  assumes "length (Coeffs s1) = length (Coeffs s2)"
  shows "AggregateShares cks s1 s2 out = AggregateShares cks s2 s1 out"
proof -
  have ok: "lvlOk k n qs (Coeffs s1) (Coeffs s2) p3 = lvlOk k n qs (Coeffs s2) (Coeffs s1) p3" for k n qs p3
    by (auto simp: lvlOk_def)
  have m: "map2 (\<lambda>a b. CRed (u64 (a + b)) q) xs ys = map2 (\<lambda>a b. CRed (u64 (a + b)) q) ys xs" for q xs ys
    by (rule map2_commute) (simp add: add.commute)
  have res: "lvlRes k n (\<lambda>q a b. CRed (u64 (a + b)) q) qs (Coeffs s1) (Coeffs s2) p3 =
             lvlRes k n (\<lambda>q a b. CRed (u64 (a + b)) q) qs (Coeffs s2) (Coeffs s1) p3" for k n qs p3
    unfolding lvlRes_def by (simp add: m)
  show ?thesis
    unfolding AggregateShares_def AddLvl_closed using assms by (simp add: ok res)
qed

lemma AggregateShares_assoc:
  fixes cks :: CKSProtocol
  defines "r \<equiv> ringQ (dckksContext cks)"
  assumes r: "wfRing r"
    and s1: "sizedAt r k s1" "reducedPoly r s1"
    and s2: "sizedAt r k s2" "reducedPoly r s2"
    and s3: "sizedAt r k s3" "reducedPoly r s3"
    and rc: "sizedAt r k t" "sizedAt r k u" "sizedAt r k out"
  shows "\<exists>x x' y. AggregateShares cks s1 s2 t = Inr x \<and> AggregateShares cks x s3 out = Inr y \<and>
            AggregateShares cks s2 s3 u = Inr x' \<and> AggregateShares cks s1 x' out = Inr y"
proof -
  define f where "f = (\<lambda>i a b. CRed (u64 (a + b)) (Modulus r ! i))"
  define x where "x = t\<lparr>Coeffs := map (\<lambda>i. map2 (f i) (Coeffs s1 ! i) (Coeffs s2 ! i)) [0..<k]\<rparr>"
  define x' where "x' = u\<lparr>Coeffs := map (\<lambda>i. map2 (f i) (Coeffs s2 ! i) (Coeffs s3 ! i)) [0..<k]\<rparr>"
  have len: "length (Modulus r) < 2 ^ 64" using r by (simp add: wfRing_def)
  have e1: "AggregateShares cks s1 s2 t = Inr x"
    using AggregateShares_sized [of cks k s1 s2 t] len s1 s2 rc
    by (simp add: r_def x_def f_def)
  have e2: "AggregateShares cks s2 s3 u = Inr x'"
    using AggregateShares_sized [of cks k s2 s3 u] len s2 s3 rc
    by (simp add: r_def x'_def f_def)
  have sx: "sizedAt r k x"
    using s1 s2 rc by (simp add: x_def sizedAt_def)
  have sx': "sizedAt r k x'"
    using s2 s3 rc by (simp add: x'_def sizedAt_def)
  have e3: "AggregateShares cks x s3 out =
      Inr (out\<lparr>Coeffs := map (\<lambda>i. map2 (f i) (Coeffs x ! i) (Coeffs s3 ! i)) [0..<k]\<rparr>)"
    using AggregateShares_sized [of cks k x s3 out] len sx s3 rc
    by (simp add: r_def f_def)
  have e4: "AggregateShares cks s1 x' out =
      Inr (out\<lparr>Coeffs := map (\<lambda>i. map2 (f i) (Coeffs s1 ! i) (Coeffs x' ! i)) [0..<k]\<rparr>)"
    using AggregateShares_sized [of cks k s1 x' out] len sx' s1 rc
    by (simp add: r_def f_def)
  have row: "map2 (f i) (Coeffs x ! i) (Coeffs s3 ! i) = map2 (f i) (Coeffs s1 ! i) (Coeffs x' ! i)"
    if i: "i < k" for i
  proof -
    have l1: "length (Coeffs s1 ! i) = N r" and l2: "length (Coeffs s2 ! i) = N r"
      and l3: "length (Coeffs s3 ! i) = N r"
      using s1 s2 s3 i by (simp_all add: sizedAt_def)
    have ik: "i < length (Modulus r)" using s1(1) i by (simp add: sizedAt_def)
    have q: "Modulus r ! i < 2 ^ 63" using r ik by (simp add: wfRing_def)
    have "map2 (f i) (map2 (f i) (Coeffs s1 ! i) (Coeffs s2 ! i)) (Coeffs s3 ! i) =
          map2 (f i) (Coeffs s1 ! i) (map2 (f i) (Coeffs s2 ! i) (Coeffs s3 ! i))"
    proof (rule map2_assoc_red)
      fix j assume "j < length (Coeffs s1 ! i)"
      then have j: "j < N r" using l1 by simp
      have "Coeffs s1 ! i ! j < Modulus r ! i" "Coeffs s2 ! i ! j < Modulus r ! i"
        "Coeffs s3 ! i ! j < Modulus r ! i"
        using s1 s2 s3 i j l1 l2 l3 by (simp_all add: reducedPoly_def sizedAt_def)
      then show "f i (f i (Coeffs s1 ! i ! j) (Coeffs s2 ! i ! j)) (Coeffs s3 ! i ! j) =
                 f i (Coeffs s1 ! i ! j) (f i (Coeffs s2 ! i ! j) (Coeffs s3 ! i ! j))"
        unfolding f_def using q by (rule CRed_add_assoc)
    qed (simp_all add: l1 l2 l3)
    then show ?thesis using i by (simp add: x_def x'_def)
  qed
  have "map (\<lambda>i. map2 (f i) (Coeffs x ! i) (Coeffs s3 ! i)) [0..<k] =
        map (\<lambda>i. map2 (f i) (Coeffs s1 ! i) (Coeffs x' ! i)) [0..<k]"
    by (rule map_cong) (simp_all add: row)
  with e1 e2 e3 e4 show ?thesis by simp
qed

lemma AggregateShares_Inr:
  assumes len: "length (Coeffs s1) < 2 ^ 64"
    and res: "AggregateShares cks s1 s2 out = Inr res"
  shows "length (Coeffs s1) \<le> length (Coeffs s2) \<and> length (Coeffs s1) \<le> length (Coeffs out) \<and>
     Spare res = Spare out \<and> length (Coeffs res) = length (Coeffs out) \<and>
     drop (length (Coeffs s1)) (Coeffs res) = drop (length (Coeffs s1)) (Coeffs out) \<and>
     (\<forall>i<length (Coeffs s1). \<forall>j<N (ringQ (dckksContext cks)).
        Coeffs res ! i ! j =
          CRed (u64 (Coeffs s1 ! i ! j + Coeffs s2 ! i ! j)) (Modulus (ringQ (dckksContext cks)) ! i))"
proof -
  have k: "rowCount (lastIndex (length (Coeffs s1))) = length (Coeffs s1)"
    using len by (rule rowCount_lastIndex)
  from res have ok: "lvlOk (length (Coeffs s1)) (N (ringQ (dckksContext cks)))
        (Modulus (ringQ (dckksContext cks))) (Coeffs s1) (Coeffs s2) (Coeffs out)"
    and r: "res = out\<lparr>Coeffs := lvlRes (length (Coeffs s1)) (N (ringQ (dckksContext cks)))
        (\<lambda>q a b. CRed (u64 (a + b)) q) (Modulus (ringQ (dckksContext cks)))
        (Coeffs s1) (Coeffs s2) (Coeffs out)\<rparr>"
    unfolding AggregateShares_def AddLvl_closed k by (simp_all split: if_splits)
  show ?thesis
    using ok unfolding r by (simp add: lvlOk_def lvlRes_length lvlRes_drop lvlRes_nth_nth)
qed

lemma AggregateShares_short:
  assumes "length (Coeffs s1) < 2 ^ 64" "length (Coeffs s2) < length (Coeffs s1)"
  shows "AggregateShares cks s1 s2 out = Inl (Panic ''index out of range'')"
proof -
  have k: "rowCount (lastIndex (length (Coeffs s1))) = length (Coeffs s1)"
    using assms(1) by (rule rowCount_lastIndex)
  show ?thesis
    unfolding AggregateShares_def AddLvl_closed k using assms(2) by (simp add: lvlOk_def)
qed


lemma AggregateShares_reduced:
  fixes cks :: CKSProtocol
  defines "r \<equiv> ringQ (dckksContext cks)"
  assumes r: "wfRing r"
    and s1: "sizedAt r k s1" "reducedPoly r s1"
    and s2: "sizedAt r k s2" "reducedPoly r s2"
    and out: "sizedAt r k out"
  shows "\<exists>y. AggregateShares cks s1 s2 out = Inr y \<and> sizedAt r k y \<and> reducedPoly r y \<and>
     (\<forall>i<k. \<forall>j<N r. Coeffs y ! i ! j = (Coeffs s1 ! i ! j + Coeffs s2 ! i ! j) mod (Modulus r ! i))"
proof -
  define y where "y = out\<lparr>Coeffs := map (\<lambda>i. map2 (\<lambda>a b. CRed (u64 (a + b)) (Modulus r ! i))
              (Coeffs s1 ! i) (Coeffs s2 ! i)) [0..<k]\<rparr>"
  have len: "length (Modulus r) < 2 ^ 64" using r by (simp add: wfRing_def)
  have e: "AggregateShares cks s1 s2 out = Inr y"
    using AggregateShares_sized [of cks k s1 s2 out] len s1 s2 out by (simp add: r_def y_def)
  have sy: "sizedAt r k y" using s1 s2 out by (simp add: y_def sizedAt_def)
  have v: "Coeffs y ! i ! j = (Coeffs s1 ! i ! j + Coeffs s2 ! i ! j) mod (Modulus r ! i)"
    if "i < k" "j < N r" for i j
  proof -
    have l: "length (Coeffs s1 ! i) = N r" "length (Coeffs s2 ! i) = N r" "length (Coeffs s1) = k"
      "length (Coeffs s2) = k" "i < length (Modulus r)"
      using s1 s2 that by (simp_all add: sizedAt_def)
    have b: "Coeffs s1 ! i ! j < Modulus r ! i" "Coeffs s2 ! i ! j < Modulus r ! i"
      using s1 s2 that l by (simp_all add: reducedPoly_def)
    have q: "Modulus r ! i < 2 ^ 63" using r l by (simp add: wfRing_def)
    show ?thesis using that l by (simp add: y_def CRed_add_mod [OF b q])
  qed
  have ry: "reducedPoly r y"
    unfolding reducedPoly_def
  proof (intro allI impI)
    fix i j assume i: "i < length (Coeffs y)" and j: "j < length (Coeffs y ! i)"
    have ik: "i < k" using i sy by (simp add: sizedAt_def)
    have jn: "j < N r" using j sy ik by (simp add: sizedAt_def)
    have "0 < Modulus r ! i"
    proof -
      have "length (Coeffs s1 ! i) = N r" "length (Coeffs s1) = k" using s1 ik by (simp_all add: sizedAt_def)
      then have "Coeffs s1 ! i ! j < Modulus r ! i" using s1(2) ik jn by (simp add: reducedPoly_def)
      then show ?thesis by simp
    qed
    then show "Coeffs y ! i ! j < Modulus r ! i" using v [OF ik jn] by simp
  qed
  from e sy ry v show ?thesis by blast
qed

lemma AggregateShares_parts:
  "(length (Coeffs s1) < 2 ^ 64 \<and> length (Coeffs s2) < length (Coeffs s1) \<longrightarrow>
      AggregateShares cks s1 s2 out = Inl (Panic ''index out of range'')) \<and>
   (length (Coeffs s1) < 2 ^ 64 \<and> AggregateShares cks s1 s2 out = Inr res \<longrightarrow>
      length (Coeffs s1) \<le> length (Coeffs s2) \<and> length (Coeffs s1) \<le> length (Coeffs out) \<and>
      Spare res = Spare out \<and> length (Coeffs res) = length (Coeffs out) \<and>
      drop (length (Coeffs s1)) (Coeffs res) = drop (length (Coeffs s1)) (Coeffs out) \<and>
      (\<forall>i<length (Coeffs s1). \<forall>j<N (ringQ (dckksContext cks)).
         Coeffs res ! i ! j =
           CRed (u64 (Coeffs s1 ! i ! j + Coeffs s2 ! i ! j)) (Modulus (ringQ (dckksContext cks)) ! i))) \<and>
   (wfRing (ringQ (dckksContext cks)) \<and>
    sizedAt (ringQ (dckksContext cks)) k s1 \<and> reducedPoly (ringQ (dckksContext cks)) s1 \<and>
    sizedAt (ringQ (dckksContext cks)) k s2 \<and> reducedPoly (ringQ (dckksContext cks)) s2 \<and>
    sizedAt (ringQ (dckksContext cks)) k out \<longrightarrow>
      (\<exists>y. AggregateShares cks s1 s2 out = Inr y \<and>
           sizedAt (ringQ (dckksContext cks)) k y \<and> reducedPoly (ringQ (dckksContext cks)) y \<and>
           (\<forall>i<k. \<forall>j<N (ringQ (dckksContext cks)).
              Coeffs y ! i ! j =
                (Coeffs s1 ! i ! j + Coeffs s2 ! i ! j) mod (Modulus (ringQ (dckksContext cks)) ! i)))) \<and>
   (length (Coeffs s1) = length (Coeffs s2) \<longrightarrow>
      AggregateShares cks s1 s2 out = AggregateShares cks s2 s1 out) \<and>
   (wfRing (ringQ (dckksContext cks)) \<and>
    sizedAt (ringQ (dckksContext cks)) k s1 \<and> reducedPoly (ringQ (dckksContext cks)) s1 \<and>
    sizedAt (ringQ (dckksContext cks)) k s2 \<and> reducedPoly (ringQ (dckksContext cks)) s2 \<and>
    sizedAt (ringQ (dckksContext cks)) k s3 \<and> reducedPoly (ringQ (dckksContext cks)) s3 \<and>
    sizedAt (ringQ (dckksContext cks)) k t \<and> sizedAt (ringQ (dckksContext cks)) k u \<and>
    sizedAt (ringQ (dckksContext cks)) k out \<longrightarrow>
      (\<exists>x x' y. AggregateShares cks s1 s2 t = Inr x \<and> AggregateShares cks x s3 out = Inr y \<and>
                 AggregateShares cks s2 s3 u = Inr x' \<and> AggregateShares cks s1 x' out = Inr y))"
proof (intro conjI impI)
  assume "length (Coeffs s1) < 2 ^ 64 \<and> length (Coeffs s2) < length (Coeffs s1)"
  then show "AggregateShares cks s1 s2 out = Inl (Panic ''index out of range'')"
    by (simp add: AggregateShares_short)
next
  assume a: "length (Coeffs s1) < 2 ^ 64 \<and> AggregateShares cks s1 s2 out = Inr res"
  note r = AggregateShares_Inr [of s1 cks s2 out res]
  from a r show "length (Coeffs s1) \<le> length (Coeffs s2)" by blast
  from a r show "length (Coeffs s1) \<le> length (Coeffs out)" by blast
  from a r show "Spare res = Spare out" by blast
  from a r show "length (Coeffs res) = length (Coeffs out)" by blast
  from a r show "drop (length (Coeffs s1)) (Coeffs res) = drop (length (Coeffs s1)) (Coeffs out)"
    by blast
  from a r show "\<forall>i<length (Coeffs s1). \<forall>j<N (ringQ (dckksContext cks)).
         Coeffs res ! i ! j =
           CRed (u64 (Coeffs s1 ! i ! j + Coeffs s2 ! i ! j)) (Modulus (ringQ (dckksContext cks)) ! i)"
    by blast
next
  assume "wfRing (ringQ (dckksContext cks)) \<and>
    sizedAt (ringQ (dckksContext cks)) k s1 \<and> reducedPoly (ringQ (dckksContext cks)) s1 \<and>
    sizedAt (ringQ (dckksContext cks)) k s2 \<and> reducedPoly (ringQ (dckksContext cks)) s2 \<and>
    sizedAt (ringQ (dckksContext cks)) k out"
  then show "\<exists>y. AggregateShares cks s1 s2 out = Inr y \<and>
           sizedAt (ringQ (dckksContext cks)) k y \<and> reducedPoly (ringQ (dckksContext cks)) y \<and>
           (\<forall>i<k. \<forall>j<N (ringQ (dckksContext cks)).
              Coeffs y ! i ! j =
                (Coeffs s1 ! i ! j + Coeffs s2 ! i ! j) mod (Modulus (ringQ (dckksContext cks)) ! i))"
    using AggregateShares_reduced [of cks k s1 s2 out] by blast
next
  assume "length (Coeffs s1) = length (Coeffs s2)"
  then show "AggregateShares cks s1 s2 out = AggregateShares cks s2 s1 out"
    by (rule AggregateShares_commute)
next
  assume "wfRing (ringQ (dckksContext cks)) \<and>
    sizedAt (ringQ (dckksContext cks)) k s1 \<and> reducedPoly (ringQ (dckksContext cks)) s1 \<and>
    sizedAt (ringQ (dckksContext cks)) k s2 \<and> reducedPoly (ringQ (dckksContext cks)) s2 \<and>
    sizedAt (ringQ (dckksContext cks)) k s3 \<and> reducedPoly (ringQ (dckksContext cks)) s3 \<and>
    sizedAt (ringQ (dckksContext cks)) k t \<and> sizedAt (ringQ (dckksContext cks)) k u \<and>
    sizedAt (ringQ (dckksContext cks)) k out"
  then show "\<exists>x x' y. AggregateShares cks s1 s2 t = Inr x \<and> AggregateShares cks x s3 out = Inr y \<and>
                 AggregateShares cks s2 s3 u = Inr x' \<and> AggregateShares cks s1 x' out = Inr y"
    using AggregateShares_assoc [of cks k s1 s2 s3 t u out] by blast
qed

lemma lvlOk_roomFor:
  "lvlOk k (N r) (Modulus r) (Coeffs p1) (Coeffs p2) (Coeffs p3) \<longleftrightarrow>
     k \<le> length (Modulus r) \<and> roomFor r k p1 \<and> roomFor r k p2 \<and> roomFor r k p3"
  by (auto simp: lvlOk_def roomFor_def)

lemma lvlRes_row:
  assumes "i < k" "n \<le> length (p1 ! i)" "n \<le> length (p2 ! i)" "n \<le> length (p3 ! i)"
  shows "length (lvlRes k n f qs p1 p2 p3 ! i) = length (p3 ! i)"
    and "drop n (lvlRes k n f qs p1 p2 p3 ! i) = drop n (p3 ! i)"
  using assms by (simp_all add: lvlRes_nth)

lemma AggregateShares_closed:
  assumes "length (Coeffs s1) < 2 ^ 64"
  shows "AggregateShares cks s1 s2 out =
     (if length (Coeffs s1) \<le> length (Modulus (ringQ (dckksContext cks))) \<and>
         roomFor (ringQ (dckksContext cks)) (length (Coeffs s1)) s1 \<and>
         roomFor (ringQ (dckksContext cks)) (length (Coeffs s1)) s2 \<and>
         roomFor (ringQ (dckksContext cks)) (length (Coeffs s1)) out
      then Inr (out\<lparr>Coeffs := lvlRes (length (Coeffs s1)) (N (ringQ (dckksContext cks)))
                  (\<lambda>q a b. CRed (u64 (a + b)) q) (Modulus (ringQ (dckksContext cks)))
                  (Coeffs s1) (Coeffs s2) (Coeffs out)\<rparr>)
      else Inl (Panic ''index out of range''))"
  unfolding AggregateShares_def AddLvl_closed rowCount_lastIndex [OF assms] lvlOk_roomFor ..

lemma AggregateShares_returns:
  "length (Coeffs s1) < 2 ^ 64 \<longrightarrow>
     ((\<exists>res. AggregateShares cks s1 s2 out = Inr res) \<longleftrightarrow>
        length (Coeffs s1) \<le> length (Modulus (ringQ (dckksContext cks))) \<and>
        roomFor (ringQ (dckksContext cks)) (length (Coeffs s1)) s1 \<and>
        roomFor (ringQ (dckksContext cks)) (length (Coeffs s1)) s2 \<and>
        roomFor (ringQ (dckksContext cks)) (length (Coeffs s1)) out) \<and>
     ((\<forall>res. AggregateShares cks s1 s2 out \<noteq> Inr res) \<longleftrightarrow>
        AggregateShares cks s1 s2 out = Inl (Panic ''index out of range''))"
  by (simp add: AggregateShares_closed)

lemma AggregateShares_fewer:
  "length (Coeffs s1) < 2 ^ 64 \<and>
   (length (Coeffs s2) < length (Coeffs s1) \<or> length (Coeffs out) < length (Coeffs s1) \<or>
    length (Modulus (ringQ (dckksContext cks))) < length (Coeffs s1)) \<longrightarrow>
     AggregateShares cks s1 s2 out = Inl (Panic ''index out of range'')"
  by (auto simp: AggregateShares_closed roomFor_def)

lemma AggregateShares_rows:
  "length (Coeffs s1) < 2 ^ 64 \<and> AggregateShares cks s1 s2 out = Inr res \<longrightarrow>
     (\<forall>i<length (Coeffs s1).
        length (Coeffs res ! i) = length (Coeffs out ! i) \<and>
        drop (N (ringQ (dckksContext cks))) (Coeffs res ! i) =
          drop (N (ringQ (dckksContext cks))) (Coeffs out ! i))"
  by (auto simp: AggregateShares_closed roomFor_def lvlRes_row split: if_splits)

lemma AggregateShares_general:
  fixes cks :: CKSProtocol
  defines "r \<equiv> ringQ (dckksContext cks)"
  assumes r: "wfRing r"
    and s1: "sizedAt r k s1" "reducedPoly r s1"
    and s2: "sizedAt r k2 s2" "k \<le> k2" "reducedPoly r s2"
    and out: "roomFor r k out"
  shows "\<exists>y. AggregateShares cks s1 s2 out = Inr y \<and> Spare y = Spare out \<and>
     length (Coeffs y) = length (Coeffs out) \<and> drop k (Coeffs y) = drop k (Coeffs out) \<and>
     (\<forall>i<k. length (Coeffs y ! i) = length (Coeffs out ! i) \<and>
        drop (N r) (Coeffs y ! i) = drop (N r) (Coeffs out ! i) \<and>
        (\<forall>j<N r. Coeffs y ! i ! j = (Coeffs s1 ! i ! j + Coeffs s2 ! i ! j) mod (Modulus r ! i)))"
proof -
  define y where "y = out\<lparr>Coeffs := lvlRes k (N r) (\<lambda>q a b. CRed (u64 (a + b)) q) (Modulus r)
      (Coeffs s1) (Coeffs s2) (Coeffs out)\<rparr>"
  have l1: "length (Coeffs s1) = k" "k \<le> length (Modulus r)" using s1(1) by (simp_all add: sizedAt_def)
  have len: "length (Coeffs s1) < 2 ^ 64" using r l1 by (simp add: wfRing_def)
  have rm: "roomFor r k s1" "roomFor r k s2"
    using s1(1) s2(1,2) by (simp_all add: roomFor_def sizedAt_def)
  have e: "AggregateShares cks s1 s2 out = Inr y"
    using AggregateShares_closed [OF len, of cks s2 out] l1 rm out by (simp add: r_def y_def)
  have rows: "length (Coeffs y ! i) = length (Coeffs out ! i) \<and>
        drop (N r) (Coeffs y ! i) = drop (N r) (Coeffs out ! i) \<and>
        (\<forall>j<N r. Coeffs y ! i ! j = (Coeffs s1 ! i ! j + Coeffs s2 ! i ! j) mod (Modulus r ! i))"
    if i: "i < k" for i
  proof (intro conjI allI impI)
    have n: "N r \<le> length (Coeffs s1 ! i)" "N r \<le> length (Coeffs s2 ! i)"
      "N r \<le> length (Coeffs out ! i)"
      using rm out i by (simp_all add: roomFor_def)
    show "length (Coeffs y ! i) = length (Coeffs out ! i)"
      using lvlRes_row(1) [OF i n] by (simp add: y_def)
    show "drop (N r) (Coeffs y ! i) = drop (N r) (Coeffs out ! i)"
      using lvlRes_row(2) [OF i n] by (simp add: y_def)
    fix j assume j: "j < N r"
    have l: "length (Coeffs s1 ! i) = N r" "length (Coeffs s2 ! i) = N r"
      "i < length (Coeffs s1)" "i < length (Coeffs s2)" "i < length (Modulus r)"
      using s1(1) s2(1,2) i by (simp_all add: sizedAt_def)
    have b: "Coeffs s1 ! i ! j < Modulus r ! i" "Coeffs s2 ! i ! j < Modulus r ! i"
      using s1(2) s2(3) l j by (simp_all add: reducedPoly_def)
    have q: "Modulus r ! i < 2 ^ 63" using r l by (simp add: wfRing_def)
    show "Coeffs y ! i ! j = (Coeffs s1 ! i ! j + Coeffs s2 ! i ! j) mod (Modulus r ! i)"
      using lvlRes_nth_nth [OF i j n(1,2)] by (simp add: y_def CRed_add_mod [OF b q])
  qed
  have "Spare y = Spare out" by (simp add: y_def)
  moreover have "length (Coeffs y) = length (Coeffs out)"
    using out by (simp add: y_def roomFor_def lvlRes_length)
  moreover have "drop k (Coeffs y) = drop k (Coeffs out)" by (simp add: y_def lvlRes_drop)
  ultimately show ?thesis using e rows by blast
qed

section \<open>Claim C2: aggregation of shares\<close>

text \<open>
  Claim C2, as amended. \<open>AggregateShares\<close> passes the level \<open>len(share1.Coeffs) - 1\<close> to
  \<open>AddLvl\<close>, so it adds over the rows of \<open>share1\<close>, not over the smaller of the two row
  counts. The call returns exactly when the ring has a modulus for every row of \<open>share1\<close>
  and the two shares and the receiver each have at least that many rows of at least \<open>N\<close>
  entries; in every other case, so when \<open>share2\<close> or the receiver has fewer rows than
  \<open>share1\<close>, it panics with an index out of range. When it returns, the first \<open>N\<close> entries
  of the first \<open>len(share1.Coeffs)\<close> rows of the receiver hold the pointwise sums reduced by
  \<open>CRed\<close>, and the other entries of these rows, the rows above and the spare rows are the
  receiver's own. On a reduced \<open>share1\<close> of \<open>k\<close> rows and a reduced \<open>share2\<close> of at least \<open>k\<close>
  rows over a well-formed ring, with a receiver that has room for \<open>k\<close> rows, the call
  returns and the sums are the sums modulo the row's modulus; with a receiver of exactly
  that size the result is again reduced and of that size. For shares with the same number
  of rows the operation is commutative, and on reduced shares of one size it is
  associative: both ways of combining three shares give the same polynomial.
\<close>

theorem AggregateShares_amended:
  "(length (Coeffs s1) < 2 ^ 64 \<longrightarrow>
     ((\<exists>res. AggregateShares cks s1 s2 out = Inr res) \<longleftrightarrow>
        length (Coeffs s1) \<le> length (Modulus (ringQ (dckksContext cks))) \<and>
        roomFor (ringQ (dckksContext cks)) (length (Coeffs s1)) s1 \<and>
        roomFor (ringQ (dckksContext cks)) (length (Coeffs s1)) s2 \<and>
        roomFor (ringQ (dckksContext cks)) (length (Coeffs s1)) out) \<and>
     ((\<forall>res. AggregateShares cks s1 s2 out \<noteq> Inr res) \<longleftrightarrow>
        AggregateShares cks s1 s2 out = Inl (Panic ''index out of range''))) \<and>
   (length (Coeffs s1) < 2 ^ 64 \<and>
    (length (Coeffs s2) < length (Coeffs s1) \<or> length (Coeffs out) < length (Coeffs s1) \<or>
     length (Modulus (ringQ (dckksContext cks))) < length (Coeffs s1)) \<longrightarrow>
      AggregateShares cks s1 s2 out = Inl (Panic ''index out of range'')) \<and>
   (length (Coeffs s1) < 2 ^ 64 \<and> AggregateShares cks s1 s2 out = Inr res \<longrightarrow>
      (\<forall>i<length (Coeffs s1).
         length (Coeffs res ! i) = length (Coeffs out ! i) \<and>
         drop (N (ringQ (dckksContext cks))) (Coeffs res ! i) =
           drop (N (ringQ (dckksContext cks))) (Coeffs out ! i))) \<and>
   (wfRing (ringQ (dckksContext cks)) \<and>
    sizedAt (ringQ (dckksContext cks)) k s1 \<and> reducedPoly (ringQ (dckksContext cks)) s1 \<and>
    sizedAt (ringQ (dckksContext cks)) k2 s2 \<and> k \<le> k2 \<and> reducedPoly (ringQ (dckksContext cks)) s2 \<and>
    roomFor (ringQ (dckksContext cks)) k out \<longrightarrow>
      (\<exists>y. AggregateShares cks s1 s2 out = Inr y \<and> Spare y = Spare out \<and>
         length (Coeffs y) = length (Coeffs out) \<and> drop k (Coeffs y) = drop k (Coeffs out) \<and>
         (\<forall>i<k. length (Coeffs y ! i) = length (Coeffs out ! i) \<and>
            drop (N (ringQ (dckksContext cks))) (Coeffs y ! i) =
              drop (N (ringQ (dckksContext cks))) (Coeffs out ! i) \<and>
            (\<forall>j<N (ringQ (dckksContext cks)).
               Coeffs y ! i ! j =
                 (Coeffs s1 ! i ! j + Coeffs s2 ! i ! j) mod
                   (Modulus (ringQ (dckksContext cks)) ! i))))) \<and>
   ((length (Coeffs s1) < 2 ^ 64 \<and> length (Coeffs s2) < length (Coeffs s1) \<longrightarrow>
      AggregateShares cks s1 s2 out = Inl (Panic ''index out of range'')) \<and>
   (length (Coeffs s1) < 2 ^ 64 \<and> AggregateShares cks s1 s2 out = Inr res \<longrightarrow>
      length (Coeffs s1) \<le> length (Coeffs s2) \<and> length (Coeffs s1) \<le> length (Coeffs out) \<and>
      Spare res = Spare out \<and> length (Coeffs res) = length (Coeffs out) \<and>
      drop (length (Coeffs s1)) (Coeffs res) = drop (length (Coeffs s1)) (Coeffs out) \<and>
      (\<forall>i<length (Coeffs s1). \<forall>j<N (ringQ (dckksContext cks)).
         Coeffs res ! i ! j =
           CRed (u64 (Coeffs s1 ! i ! j + Coeffs s2 ! i ! j)) (Modulus (ringQ (dckksContext cks)) ! i))) \<and>
   (wfRing (ringQ (dckksContext cks)) \<and>
    sizedAt (ringQ (dckksContext cks)) k s1 \<and> reducedPoly (ringQ (dckksContext cks)) s1 \<and>
    sizedAt (ringQ (dckksContext cks)) k s2 \<and> reducedPoly (ringQ (dckksContext cks)) s2 \<and>
    sizedAt (ringQ (dckksContext cks)) k out \<longrightarrow>
      (\<exists>y. AggregateShares cks s1 s2 out = Inr y \<and>
           sizedAt (ringQ (dckksContext cks)) k y \<and> reducedPoly (ringQ (dckksContext cks)) y \<and>
           (\<forall>i<k. \<forall>j<N (ringQ (dckksContext cks)).
              Coeffs y ! i ! j =
                (Coeffs s1 ! i ! j + Coeffs s2 ! i ! j) mod (Modulus (ringQ (dckksContext cks)) ! i)))) \<and>
   (length (Coeffs s1) = length (Coeffs s2) \<longrightarrow>
      AggregateShares cks s1 s2 out = AggregateShares cks s2 s1 out) \<and>
   (wfRing (ringQ (dckksContext cks)) \<and>
    sizedAt (ringQ (dckksContext cks)) k s1 \<and> reducedPoly (ringQ (dckksContext cks)) s1 \<and>
    sizedAt (ringQ (dckksContext cks)) k s2 \<and> reducedPoly (ringQ (dckksContext cks)) s2 \<and>
    sizedAt (ringQ (dckksContext cks)) k s3 \<and> reducedPoly (ringQ (dckksContext cks)) s3 \<and>
    sizedAt (ringQ (dckksContext cks)) k t \<and> sizedAt (ringQ (dckksContext cks)) k u \<and>
    sizedAt (ringQ (dckksContext cks)) k out \<longrightarrow>
      (\<exists>x x' y. AggregateShares cks s1 s2 t = Inr x \<and> AggregateShares cks x s3 out = Inr y \<and>
                 AggregateShares cks s2 s3 u = Inr x' \<and> AggregateShares cks s1 x' out = Inr y)))"
  (is "?A \<and> ?B \<and> ?C \<and> ?D \<and> ?E")
proof -
  have a: ?A by (rule AggregateShares_returns)
  have b: ?B by (rule AggregateShares_fewer)
  have c: ?C by (rule AggregateShares_rows)
  have d: ?D using AggregateShares_general [of cks k s1 k2 s2 out] by blast
  have e: ?E by (rule AggregateShares_parts)
  show ?thesis by (rule conjI [OF a conjI [OF b conjI [OF c conjI [OF d e]]]])
qed

lemmas ex_defs = exCKS_def exRing_def exShare1_def exShare2_def exShare3_def exShort_def exZero_def
  exWide_def exTall_def

lemma all_less_numeral: "(\<forall>i<numeral k. P i) \<longleftrightarrow> (\<forall>i<Suc (pred_numeral k). P i)"
  by (simp add: numeral_eq_Suc)

lemmas ex_all = all_less_numeral All_less_Suc

lemmas agg_eval = AggregateShares_def AddLvl_closed rowCount_lastIndex lvlOk_def lvlRes_def ex_defs
  ex_all CRed_def u64_def

lemma ex_eval:
  "AggregateShares exCKS exShare1 exShare2 exZero = Inr \<lparr>Coeffs = [[0, 3], [1, 2]], Spare = []\<rparr>"
  "AggregateShares exCKS exShort exShare1 exWide = Inr \<lparr>Coeffs = [[0, 3, 9], [8, 8, 8]], Spare = []\<rparr>"
  "AggregateShares exCKS exShort exShort exTall = Inr \<lparr>Coeffs = [[3, 3], [8, 8], [7, 7]], Spare = []\<rparr>"
  by (simp_all add: agg_eval)

theorem AggregateShares_counterexample:
  "AggregateShares exCKS exShare1 exShort exZero = Inl (Panic ''index out of range'') \<and>
   AggregateShares exCKS exShort exShare1 exZero = Inr \<lparr>Coeffs = [[0, 3], [0, 0]], Spare = []\<rparr>"
  by (simp add: agg_eval)

lemma ex_wf2: "wfRing exRing \<and> sizedAt exRing 2 exShare1 \<and> reducedPoly exRing exShare1 \<and>
     sizedAt exRing 2 exShare2 \<and> reducedPoly exRing exShare2 \<and>
     sizedAt exRing 2 exShare3 \<and> reducedPoly exRing exShare3 \<and> sizedAt exRing 2 exZero"
  by (simp add: wfRing_def sizedAt_def reducedPoly_def ex_defs ex_all)

lemma ex_wf1: "sizedAt exRing 1 exShort \<and> reducedPoly exRing exShort \<and>
     roomFor exRing 1 exWide \<and> roomFor exRing 1 exTall \<and> roomFor exRing 1 exShort \<and>
     roomFor exRing 2 exWide \<and> roomFor exRing 2 exZero"
  by (simp add: sizedAt_def reducedPoly_def roomFor_def ex_defs ex_all)

theorem AggregateShares_amended_witness:
  "AggregateShares exCKS exShare1 exShort exZero = Inl (Panic ''index out of range'') \<and>
   AggregateShares exCKS exShare1 exShare2 exShort = Inl (Panic ''index out of range'') \<and>
   AggregateShares exCKS exShare1 exShare2 exZero = Inr \<lparr>Coeffs = [[0, 3], [1, 2]], Spare = []\<rparr> \<and>
   AggregateShares exCKS exShare2 exShare1 exZero = Inr \<lparr>Coeffs = [[0, 3], [1, 2]], Spare = []\<rparr> \<and>
   AggregateShares exCKS exShort exShare1 exWide = Inr \<lparr>Coeffs = [[0, 3, 9], [8, 8, 8]], Spare = []\<rparr> \<and>
   (\<exists>y. AggregateShares exCKS exShort exShare1 exWide = Inr y \<and>
        drop 1 (Coeffs y) = drop 1 (Coeffs exWide) \<and> drop 2 (Coeffs y ! 0) = drop 2 (Coeffs exWide ! 0) \<and>
        Coeffs y ! 0 ! 0 = (4 + 1) mod 5 \<and> Coeffs y ! 0 ! 1 = (4 + 4) mod 5) \<and>
   (\<exists>y. AggregateShares exCKS exShort exShort exTall = Inr y \<and>
        drop 1 (Coeffs y) = drop 1 (Coeffs exTall)) \<and>
   (\<exists>x x' y. AggregateShares exCKS exShare1 exShare2 exZero = Inr x \<and>
              AggregateShares exCKS x exShare3 exZero = Inr y \<and>
              AggregateShares exCKS exShare2 exShare3 exZero = Inr x' \<and>
              AggregateShares exCKS exShare1 x' exZero = Inr y)"
proof -
  have q: "ringQ (dckksContext exCKS) = exRing" by (simp add: exCKS_def)
  note t1 = AggregateShares_amended [where ?s1.0 = exShare1 and ?s2.0 = exShort and cks = exCKS
      and out = exZero, unfolded q]
  note t2 = AggregateShares_amended [where ?s1.0 = exShare1 and ?s2.0 = exShare2 and cks = exCKS
      and out = exShort, unfolded q]
  note t3 = AggregateShares_amended [where ?s1.0 = exShare1 and ?s2.0 = exShare2 and cks = exCKS
      and out = exZero and k = 2 and ?s3.0 = exShare3 and t = exZero and u = exZero, unfolded q]
  note t4 = AggregateShares_amended [where ?s1.0 = exShort and ?s2.0 = exShare1 and cks = exCKS
      and out = exWide and k = 1 and ?k2.0 = 2, unfolded q]
  note t5 = AggregateShares_amended [where ?s1.0 = exShort and ?s2.0 = exShort and cks = exCKS
      and out = exTall and k = 1 and ?k2.0 = 1, unfolded q]
  have l: "length (Coeffs exShare1) < 2 ^ 64" "length (Coeffs exShort) < length (Coeffs exShare1)"
    "length (Coeffs exShare1) = length (Coeffs exShare2)" "(1::nat) \<le> 2" "(1::nat) \<le> 1"
    by (simp_all add: ex_defs)
  have a: "AggregateShares exCKS exShare1 exShort exZero = Inl (Panic ''index out of range'')"
    using conjunct1 [OF conjunct2 [OF t1]] l by blast
  have b: "AggregateShares exCKS exShare1 exShare2 exShort = Inl (Panic ''index out of range'')"
    using conjunct1 [OF conjunct2 [OF t2]] l by blast
  note c = ex_eval(1)
  have d: "AggregateShares exCKS exShare2 exShare1 exZero = Inr \<lparr>Coeffs = [[0, 3], [1, 2]], Spare = []\<rparr>"
    using t3 l(3) c by metis
  have e: "\<exists>y. AggregateShares exCKS exShort exShare1 exWide = Inr y \<and>
        drop 1 (Coeffs y) = drop 1 (Coeffs exWide) \<and> drop 2 (Coeffs y ! 0) = drop 2 (Coeffs exWide ! 0) \<and>
        Coeffs y ! 0 ! 0 = (4 + 1) mod 5 \<and> Coeffs y ! 0 ! 1 = (4 + 4) mod 5"
  proof -
    from conjunct1 [OF conjunct2 [OF conjunct2 [OF conjunct2 [OF t4]]]] ex_wf2 ex_wf1 l(4)
    obtain y where y: "AggregateShares exCKS exShort exShare1 exWide = Inr y"
      "drop 1 (Coeffs y) = drop 1 (Coeffs exWide)"
      "\<forall>i<1. length (Coeffs y ! i) = length (Coeffs exWide ! i) \<and>
            drop (N exRing) (Coeffs y ! i) = drop (N exRing) (Coeffs exWide ! i) \<and>
            (\<forall>j<N exRing. Coeffs y ! i ! j =
                 (Coeffs exShort ! i ! j + Coeffs exShare1 ! i ! j) mod (Modulus exRing ! i))"
      by blast
    from y(3) have "drop 2 (Coeffs y ! 0) = drop 2 (Coeffs exWide ! 0) \<and>
        Coeffs y ! 0 ! 0 = (4 + 1) mod 5 \<and> Coeffs y ! 0 ! 1 = (4 + 4) mod 5"
      by (simp add: ex_defs ex_all)
    with y(1,2) show ?thesis by blast
  qed
  have f: "\<exists>y. AggregateShares exCKS exShort exShort exTall = Inr y \<and>
        drop 1 (Coeffs y) = drop 1 (Coeffs exTall)"
    using conjunct1 [OF conjunct2 [OF conjunct2 [OF conjunct2 [OF t5]]]] ex_wf2 ex_wf1 l(5) by blast
  have g: "\<exists>x x' y. AggregateShares exCKS exShare1 exShare2 exZero = Inr x \<and>
              AggregateShares exCKS x exShare3 exZero = Inr y \<and>
              AggregateShares exCKS exShare2 exShare3 exZero = Inr x' \<and>
              AggregateShares exCKS exShare1 x' exZero = Inr y"
    using t3 ex_wf2 by blast
  from a b c d ex_eval(2) e f g show ?thesis by blast
qed

lemma idx_eq_Inr: "idx xs i = Inr x \<longleftrightarrow> i < length xs \<and> x = xs ! i"
  by (auto simp: idx_def)

lemma KeySwitch_Inr:
  assumes "KeySwitch cks combined ct ctOut = Inr out"
  shows "2 \<le> length (Value ct) \<and> 2 \<le> length (Value ctOut) \<and>
     lvlOk (rowCount (Level ct)) (N (ringQ (dckksContext cks))) (Modulus (ringQ (dckksContext cks)))
       (Coeffs (Value ct ! 0)) (Coeffs combined) (Coeffs (Value ctOut ! 0)) \<and>
     lvlOk (rowCount (Level ct)) (N (ringQ (dckksContext cks))) (replicate (rowCount (Level ct)) 0)
       (Coeffs (Value ct ! 1)) (Coeffs (Value ct ! 1)) (Coeffs (Value ctOut ! 1)) \<and>
     out = ctOut\<lparr>Value := (Value ctOut)
        [0 := (Value ctOut ! 0)\<lparr>Coeffs := lvlRes (rowCount (Level ct)) (N (ringQ (dckksContext cks)))
                 (\<lambda>q a b. CRed (u64 (a + b)) q) (Modulus (ringQ (dckksContext cks)))
                 (Coeffs (Value ct ! 0)) (Coeffs combined) (Coeffs (Value ctOut ! 0))\<rparr>,
         1 := (Value ctOut ! 1)\<lparr>Coeffs := lvlRes (rowCount (Level ct)) (N (ringQ (dckksContext cks)))
                 (\<lambda>q a b. a) (replicate (rowCount (Level ct)) 0)
                 (Coeffs (Value ct ! 1)) (Coeffs (Value ct ! 1)) (Coeffs (Value ctOut ! 1))\<rparr>],
       Scale := Scale ct\<rparr>"
  using assms unfolding KeySwitch_def AddLvl_closed CopyLvl_closed
  by (auto simp: bindF_eq_Inr idx_eq_Inr split: if_splits)

lemma KeySwitch_ok:
  assumes "2 \<le> length (Value ct)" "2 \<le> length (Value ctOut)"
    "lvlOk (rowCount (Level ct)) (N (ringQ (dckksContext cks))) (Modulus (ringQ (dckksContext cks)))
       (Coeffs (Value ct ! 0)) (Coeffs combined) (Coeffs (Value ctOut ! 0))"
    "lvlOk (rowCount (Level ct)) (N (ringQ (dckksContext cks))) (replicate (rowCount (Level ct)) 0)
       (Coeffs (Value ct ! 1)) (Coeffs (Value ct ! 1)) (Coeffs (Value ctOut ! 1))"
  shows "\<exists>out. KeySwitch cks combined ct ctOut = Inr out"
  using assms unfolding KeySwitch_def AddLvl_closed CopyLvl_closed
  by (auto simp: bindF_simps idx_def)

lemma Level_sizedAt:
  assumes "Value el \<noteq> []" "sizedAt r k (Value el ! 0)" "length (Modulus r) < 2 ^ 64"
  shows "rowCount (Level el) = k"
proof -
  obtain p ps where v: "Value el = p # ps" using assms(1) by (cases "Value el") auto
  have "length (Coeffs p) = k" "k < 2 ^ 64" using assms(2,3) v by (simp_all add: sizedAt_def)
  then show ?thesis by (simp add: Level_def v rowCount_lastIndex)
qed

lemma KeySwitch_parts:
  "(KeySwitch cks combined ct ctOut = Inr out \<longrightarrow>
      Scale out = Scale ct \<and> IsNTT out = IsNTT ctOut \<and>
      length (Value out) = length (Value ctOut) \<and> 2 \<le> length (Value out) \<and>
      drop 2 (Value out) = drop 2 (Value ctOut) \<and>
      Spare (Value out ! 0) = Spare (Value ctOut ! 0) \<and> Spare (Value out ! 1) = Spare (Value ctOut ! 1) \<and>
      (\<forall>i<rowCount (Level ct). \<forall>j<N (ringQ (dckksContext cks)).
         Coeffs (Value out ! 0) ! i ! j =
           CRed (u64 (Coeffs (Value ct ! 0) ! i ! j + Coeffs combined ! i ! j))
             (Modulus (ringQ (dckksContext cks)) ! i) \<and>
         Coeffs (Value out ! 1) ! i ! j = Coeffs (Value ct ! 1) ! i ! j) \<and>
      drop (rowCount (Level ct)) (Coeffs (Value out ! 0)) =
        drop (rowCount (Level ct)) (Coeffs (Value ctOut ! 0)) \<and>
      drop (rowCount (Level ct)) (Coeffs (Value out ! 1)) =
        drop (rowCount (Level ct)) (Coeffs (Value ctOut ! 1))) \<and>
   (wfRing (ringQ (dckksContext cks)) \<and> length (Value ct) = 2 \<and> length (Value ctOut) = 2 \<and>
    sizedAt (ringQ (dckksContext cks)) k (Value ct ! 0) \<and>
    reducedPoly (ringQ (dckksContext cks)) (Value ct ! 0) \<and>
    sizedAt (ringQ (dckksContext cks)) k (Value ct ! 1) \<and>
    sizedAt (ringQ (dckksContext cks)) k combined \<and>
    reducedPoly (ringQ (dckksContext cks)) combined \<and>
    sizedAt (ringQ (dckksContext cks)) k (Value ctOut ! 0) \<and>
    sizedAt (ringQ (dckksContext cks)) k (Value ctOut ! 1) \<longrightarrow>
      (\<exists>res. KeySwitch cks combined ct ctOut = Inr res \<and> Scale res = Scale ct \<and>
         length (Value res) = 2 \<and>
         Coeffs (Value res ! 1) = Coeffs (Value ct ! 1) \<and>
         length (Coeffs (Value res ! 0)) = k \<and>
         (\<forall>i<k. length (Coeffs (Value res ! 0) ! i) = N (ringQ (dckksContext cks)) \<and>
            (\<forall>j<N (ringQ (dckksContext cks)).
               Coeffs (Value res ! 0) ! i ! j =
                 (Coeffs (Value ct ! 0) ! i ! j + Coeffs combined ! i ! j) mod
                   (Modulus (ringQ (dckksContext cks)) ! i)))))"
proof (intro conjI impI)
  assume a: "KeySwitch cks combined ct ctOut = Inr out"
  note r = KeySwitch_Inr [OF a]
  define k where "k = rowCount (Level ct)"
  from r have l: "2 \<le> length (Value ctOut)" by blast
  then have l0: "0 < length (Value ctOut)" and l1: "Suc 0 < length (Value ctOut)" by auto
  from r have ok0: "lvlOk k (N (ringQ (dckksContext cks))) (Modulus (ringQ (dckksContext cks)))
       (Coeffs (Value ct ! 0)) (Coeffs combined) (Coeffs (Value ctOut ! 0))"
    and ok1: "lvlOk k (N (ringQ (dckksContext cks))) (replicate k 0)
       (Coeffs (Value ct ! 1)) (Coeffs (Value ct ! 1)) (Coeffs (Value ctOut ! 1))"
    unfolding k_def by blast+
  from r have v0: "Value out ! 0 = (Value ctOut ! 0)\<lparr>Coeffs := lvlRes k (N (ringQ (dckksContext cks)))
                 (\<lambda>q a b. CRed (u64 (a + b)) q) (Modulus (ringQ (dckksContext cks)))
                 (Coeffs (Value ct ! 0)) (Coeffs combined) (Coeffs (Value ctOut ! 0))\<rparr>"
    and v1: "Value out ! 1 = (Value ctOut ! 1)\<lparr>Coeffs := lvlRes k (N (ringQ (dckksContext cks)))
                 (\<lambda>q a b. a) (replicate k 0)
                 (Coeffs (Value ct ! 1)) (Coeffs (Value ct ! 1)) (Coeffs (Value ctOut ! 1))\<rparr>"
    using l0 l1 unfolding k_def by (auto simp: nth_list_update)
  from r show "Scale out = Scale ct" by auto
  from r show "IsNTT out = IsNTT ctOut" by auto
  from r show "length (Value out) = length (Value ctOut)" by auto
  from r show "2 \<le> length (Value out)" by auto
  from r show "drop 2 (Value out) = drop 2 (Value ctOut)" by (auto simp: drop_update_cancel numeral_2_eq_2)
  show "Spare (Value out ! 0) = Spare (Value ctOut ! 0)" using v0 by simp
  show "Spare (Value out ! 1) = Spare (Value ctOut ! 1)" using v1 by simp
  show "\<forall>i<rowCount (Level ct). \<forall>j<N (ringQ (dckksContext cks)).
         Coeffs (Value out ! 0) ! i ! j =
           CRed (u64 (Coeffs (Value ct ! 0) ! i ! j + Coeffs combined ! i ! j))
             (Modulus (ringQ (dckksContext cks)) ! i) \<and>
         Coeffs (Value out ! 1) ! i ! j = Coeffs (Value ct ! 1) ! i ! j"
    unfolding k_def [symmetric] using ok0 ok1 v0 v1
    by (simp add: lvlOk_def lvlRes_nth_nth)
  show "drop (rowCount (Level ct)) (Coeffs (Value out ! 0)) =
        drop (rowCount (Level ct)) (Coeffs (Value ctOut ! 0))"
    unfolding k_def [symmetric] using v0 by (simp add: lvlRes_drop)
  show "drop (rowCount (Level ct)) (Coeffs (Value out ! 1)) =
        drop (rowCount (Level ct)) (Coeffs (Value ctOut ! 1))"
    unfolding k_def [symmetric] using v1 by (simp add: lvlRes_drop)
next
  let ?r = "ringQ (dckksContext cks)"
  assume w: "wfRing ?r \<and> length (Value ct) = 2 \<and> length (Value ctOut) = 2 \<and>
    sizedAt ?r k (Value ct ! 0) \<and> reducedPoly ?r (Value ct ! 0) \<and>
    sizedAt ?r k (Value ct ! 1) \<and> sizedAt ?r k combined \<and> reducedPoly ?r combined \<and>
    sizedAt ?r k (Value ctOut ! 0) \<and> sizedAt ?r k (Value ctOut ! 1)"
  then have ne: "Value ct \<noteq> []" by auto
  have len: "length (Modulus ?r) < 2 ^ 64" using w by (simp add: wfRing_def)
  have k: "rowCount (Level ct) = k" using Level_sizedAt [OF ne _ len] w by blast
  have ok0: "lvlOk k (N ?r) (Modulus ?r) (Coeffs (Value ct ! 0)) (Coeffs combined) (Coeffs (Value ctOut ! 0))"
    using w by (simp add: lvlOk_sized)
  have ok1: "lvlOk k (N ?r) (replicate k 0) (Coeffs (Value ct ! 1)) (Coeffs (Value ct ! 1))
       (Coeffs (Value ctOut ! 1))"
    using w by (simp add: lvlOk_def sizedAt_def)
  obtain res where e: "KeySwitch cks combined ct ctOut = Inr res"
    using KeySwitch_ok [of ct ctOut cks combined] w ok0 ok1 unfolding k by auto
  note r = KeySwitch_Inr [OF e, unfolded k]
  have l0: "0 < length (Value ctOut)" and l1: "Suc 0 < length (Value ctOut)" using w by auto
  have v0: "Value res ! 0 = (Value ctOut ! 0)\<lparr>Coeffs := lvlRes k (N ?r)
                 (\<lambda>q a b. CRed (u64 (a + b)) q) (Modulus ?r)
                 (Coeffs (Value ct ! 0)) (Coeffs combined) (Coeffs (Value ctOut ! 0))\<rparr>"
    and v1: "Value res ! 1 = (Value ctOut ! 1)\<lparr>Coeffs := lvlRes k (N ?r)
                 (\<lambda>q a b. a) (replicate k 0)
                 (Coeffs (Value ct ! 1)) (Coeffs (Value ct ! 1)) (Coeffs (Value ctOut ! 1))\<rparr>"
    using r l0 l1 by (auto simp: nth_list_update)
  have c1: "Coeffs (Value res ! 1) = Coeffs (Value ct ! 1)"
  proof -
    have "lvlRes k (N ?r) (\<lambda>q a b. a) (replicate k 0)
                 (Coeffs (Value ct ! 1)) (Coeffs (Value ct ! 1)) (Coeffs (Value ctOut ! 1)) =
          map (\<lambda>i. Coeffs (Value ct ! 1) ! i) [0..<k]"
      using w unfolding lvlRes_def sizedAt_def
      by (auto intro!: nth_equalityI simp: zip_same_conv_map)
    also have "\<dots> = Coeffs (Value ct ! 1)"
      using w unfolding sizedAt_def by (auto intro!: nth_equalityI)
    finally show ?thesis using v1 by simp
  qed
  have c0: "Coeffs (Value res ! 0) =
      map (\<lambda>i. map2 (\<lambda>a b. CRed (u64 (a + b)) (Modulus ?r ! i))
              (Coeffs (Value ct ! 0) ! i) (Coeffs combined ! i)) [0..<k]"
    using w v0 by (simp add: lvlRes_sized)
  have vals: "length (Coeffs (Value res ! 0) ! i) = N ?r \<and>
      (\<forall>j<N ?r. Coeffs (Value res ! 0) ! i ! j =
         (Coeffs (Value ct ! 0) ! i ! j + Coeffs combined ! i ! j) mod (Modulus ?r ! i))"
    if i: "i < k" for i
  proof (intro conjI allI impI)
    have l: "length (Coeffs (Value ct ! 0) ! i) = N ?r" "length (Coeffs combined ! i) = N ?r"
      "length (Coeffs (Value ct ! 0)) = k" "length (Coeffs combined) = k" "i < length (Modulus ?r)"
      using w i by (simp_all add: sizedAt_def)
    show "length (Coeffs (Value res ! 0) ! i) = N ?r" using i l by (simp add: c0)
    fix j assume j: "j < N ?r"
    have b: "Coeffs (Value ct ! 0) ! i ! j < Modulus ?r ! i" "Coeffs combined ! i ! j < Modulus ?r ! i"
      using w i j l by (simp_all add: reducedPoly_def)
    have q: "Modulus ?r ! i < 2 ^ 63" using w l by (simp add: wfRing_def)
    show "Coeffs (Value res ! 0) ! i ! j =
         (Coeffs (Value ct ! 0) ! i ! j + Coeffs combined ! i ! j) mod (Modulus ?r ! i)"
      using i j l by (simp add: c0 CRed_add_mod [OF b q])
  qed
  have "Scale res = Scale ct" "length (Value res) = 2" using r w by auto
  moreover have "length (Coeffs (Value res ! 0)) = k" by (simp add: c0)
  ultimately show "\<exists>res. KeySwitch cks combined ct ctOut = Inr res \<and> Scale res = Scale ct \<and>
         length (Value res) = 2 \<and>
         Coeffs (Value res ! 1) = Coeffs (Value ct ! 1) \<and>
         length (Coeffs (Value res ! 0)) = k \<and>
         (\<forall>i<k. length (Coeffs (Value res ! 0) ! i) = N ?r \<and>
            (\<forall>j<N ?r.
               Coeffs (Value res ! 0) ! i ! j =
                 (Coeffs (Value ct ! 0) ! i ! j + Coeffs combined ! i ! j) mod (Modulus ?r ! i)))"
    using e c1 vals by blast
qed

lemma lvlOk_copy:
  "lvlOk k (N r) (replicate k 0) (Coeffs p0) (Coeffs p0) (Coeffs p1) \<longleftrightarrow>
     roomFor r k p0 \<and> roomFor r k p1"
  by (auto simp: lvlOk_def roomFor_def)

lemma KeySwitch_closed:
  "KeySwitch cks combined ct ctOut =
     (if 2 \<le> length (Value ct) \<and> 2 \<le> length (Value ctOut) \<and>
         rowCount (Level ct) \<le> length (Modulus (ringQ (dckksContext cks))) \<and>
         roomFor (ringQ (dckksContext cks)) (rowCount (Level ct)) (Value ct ! 0) \<and>
         roomFor (ringQ (dckksContext cks)) (rowCount (Level ct)) combined \<and>
         roomFor (ringQ (dckksContext cks)) (rowCount (Level ct)) (Value ctOut ! 0) \<and>
         roomFor (ringQ (dckksContext cks)) (rowCount (Level ct)) (Value ct ! 1) \<and>
         roomFor (ringQ (dckksContext cks)) (rowCount (Level ct)) (Value ctOut ! 1)
      then Inr (ctOut\<lparr>Value := (Value ctOut)
        [0 := (Value ctOut ! 0)\<lparr>Coeffs := lvlRes (rowCount (Level ct)) (N (ringQ (dckksContext cks)))
                 (\<lambda>q a b. CRed (u64 (a + b)) q) (Modulus (ringQ (dckksContext cks)))
                 (Coeffs (Value ct ! 0)) (Coeffs combined) (Coeffs (Value ctOut ! 0))\<rparr>,
         1 := (Value ctOut ! 1)\<lparr>Coeffs := lvlRes (rowCount (Level ct)) (N (ringQ (dckksContext cks)))
                 (\<lambda>q a b. a) (replicate (rowCount (Level ct)) 0)
                 (Coeffs (Value ct ! 1)) (Coeffs (Value ct ! 1)) (Coeffs (Value ctOut ! 1))\<rparr>],
       Scale := Scale ct\<rparr>)
      else Inl (Panic ''index out of range''))"
  unfolding KeySwitch_def AddLvl_closed CopyLvl_closed lvlOk_roomFor lvlOk_copy
  by (auto simp: bindF_simps idx_def)

lemma KeySwitch_returns:
  "((\<exists>out. KeySwitch cks combined ct ctOut = Inr out) \<longleftrightarrow>
      2 \<le> length (Value ct) \<and> 2 \<le> length (Value ctOut) \<and>
      rowCount (Level ct) \<le> length (Modulus (ringQ (dckksContext cks))) \<and>
      roomFor (ringQ (dckksContext cks)) (rowCount (Level ct)) (Value ct ! 0) \<and>
      roomFor (ringQ (dckksContext cks)) (rowCount (Level ct)) combined \<and>
      roomFor (ringQ (dckksContext cks)) (rowCount (Level ct)) (Value ctOut ! 0) \<and>
      roomFor (ringQ (dckksContext cks)) (rowCount (Level ct)) (Value ct ! 1) \<and>
      roomFor (ringQ (dckksContext cks)) (rowCount (Level ct)) (Value ctOut ! 1)) \<and>
   ((\<forall>out. KeySwitch cks combined ct ctOut \<noteq> Inr out) \<longleftrightarrow>
      KeySwitch cks combined ct ctOut = Inl (Panic ''index out of range''))"
  by (simp add: KeySwitch_closed)

lemma KeySwitch_rows:
  "KeySwitch cks combined ct ctOut = Inr out \<longrightarrow>
     (\<forall>i<rowCount (Level ct).
        length (Coeffs (Value out ! 0) ! i) = length (Coeffs (Value ctOut ! 0) ! i) \<and>
        drop (N (ringQ (dckksContext cks))) (Coeffs (Value out ! 0) ! i) =
          drop (N (ringQ (dckksContext cks))) (Coeffs (Value ctOut ! 0) ! i) \<and>
        length (Coeffs (Value out ! 1) ! i) = length (Coeffs (Value ctOut ! 1) ! i) \<and>
        drop (N (ringQ (dckksContext cks))) (Coeffs (Value out ! 1) ! i) =
          drop (N (ringQ (dckksContext cks))) (Coeffs (Value ctOut ! 1) ! i))"
proof (intro impI allI)
  fix i assume a: "KeySwitch cks combined ct ctOut = Inr out" and i: "i < rowCount (Level ct)"
  let ?r = "ringQ (dckksContext cks)" and ?k = "rowCount (Level ct)"
  from a have c: "2 \<le> length (Value ctOut)"
    "roomFor ?r ?k (Value ct ! 0)" "roomFor ?r ?k combined" "roomFor ?r ?k (Value ctOut ! 0)"
    "roomFor ?r ?k (Value ct ! 1)" "roomFor ?r ?k (Value ctOut ! 1)"
    unfolding KeySwitch_closed by (simp_all split: if_splits)
  have l0: "0 < length (Value ctOut)" and l1: "Suc 0 < length (Value ctOut)" using c(1) by auto
  from a have v0: "Value out ! 0 = (Value ctOut ! 0)\<lparr>Coeffs := lvlRes ?k (N ?r)
                 (\<lambda>q a b. CRed (u64 (a + b)) q) (Modulus ?r)
                 (Coeffs (Value ct ! 0)) (Coeffs combined) (Coeffs (Value ctOut ! 0))\<rparr>"
    and v1: "Value out ! 1 = (Value ctOut ! 1)\<lparr>Coeffs := lvlRes ?k (N ?r)
                 (\<lambda>q a b. a) (replicate ?k 0)
                 (Coeffs (Value ct ! 1)) (Coeffs (Value ct ! 1)) (Coeffs (Value ctOut ! 1))\<rparr>"
    unfolding KeySwitch_closed using l0 l1 by (auto simp: nth_list_update split: if_splits)
  have n: "N ?r \<le> length (Coeffs (Value ct ! 0) ! i)" "N ?r \<le> length (Coeffs combined ! i)"
    "N ?r \<le> length (Coeffs (Value ctOut ! 0) ! i)" "N ?r \<le> length (Coeffs (Value ct ! 1) ! i)"
    "N ?r \<le> length (Coeffs (Value ctOut ! 1) ! i)"
    using c i by (simp_all add: roomFor_def)
  show "length (Coeffs (Value out ! 0) ! i) = length (Coeffs (Value ctOut ! 0) ! i) \<and>
        drop (N ?r) (Coeffs (Value out ! 0) ! i) = drop (N ?r) (Coeffs (Value ctOut ! 0) ! i) \<and>
        length (Coeffs (Value out ! 1) ! i) = length (Coeffs (Value ctOut ! 1) ! i) \<and>
        drop (N ?r) (Coeffs (Value out ! 1) ! i) = drop (N ?r) (Coeffs (Value ctOut ! 1) ! i)"
    using lvlRes_row [OF i n(1,2,3)] lvlRes_row [OF i n(4,4,5)] v0 v1 by simp
qed

lemma KeySwitch_general:
  fixes cks :: CKSProtocol
  defines "r \<equiv> ringQ (dckksContext cks)"
  assumes r: "wfRing r"
    and v: "2 \<le> length (Value ct)" "2 \<le> length (Value ctOut)"
    and c0: "sizedAt r k (Value ct ! 0)" "reducedPoly r (Value ct ! 0)"
    and c1: "roomFor r k (Value ct ! 1)"
    and sh: "sizedAt r kc combined" "k \<le> kc" "reducedPoly r combined"
    and o: "roomFor r k (Value ctOut ! 0)" "roomFor r k (Value ctOut ! 1)"
  shows "\<exists>res. KeySwitch cks combined ct ctOut = Inr res \<and> rowCount (Level ct) = k \<and>
     Scale res = Scale ct \<and> IsNTT res = IsNTT ctOut \<and>
     length (Value res) = length (Value ctOut) \<and> drop 2 (Value res) = drop 2 (Value ctOut) \<and>
     (\<forall>i<k. \<forall>j<N r.
        Coeffs (Value res ! 0) ! i ! j =
          (Coeffs (Value ct ! 0) ! i ! j + Coeffs combined ! i ! j) mod (Modulus r ! i) \<and>
        Coeffs (Value res ! 1) ! i ! j = Coeffs (Value ct ! 1) ! i ! j) \<and>
     drop k (Coeffs (Value res ! 0)) = drop k (Coeffs (Value ctOut ! 0)) \<and>
     drop k (Coeffs (Value res ! 1)) = drop k (Coeffs (Value ctOut ! 1))"
proof -
  have ne: "Value ct \<noteq> []" using v by auto
  have len: "length (Modulus r) < 2 ^ 64" using r by (simp add: wfRing_def)
  have k: "rowCount (Level ct) = k" using Level_sizedAt [OF ne c0(1) len] .
  have km: "k \<le> length (Modulus r)" using c0(1) by (simp add: sizedAt_def)
  have rm: "roomFor r k (Value ct ! 0)" "roomFor r k combined"
    using c0(1) sh(1,2) by (simp_all add: roomFor_def sizedAt_def)
  obtain res where e: "KeySwitch cks combined ct ctOut = Inr res"
    using KeySwitch_returns [of cks combined ct ctOut] v km rm c1 o unfolding k r_def by blast
  note p = KeySwitch_parts [of cks combined ct ctOut res, THEN conjunct1, rule_format, OF e,
      unfolded k, folded r_def]
  have vals: "Coeffs (Value res ! 0) ! i ! j =
          (Coeffs (Value ct ! 0) ! i ! j + Coeffs combined ! i ! j) mod (Modulus r ! i) \<and>
        Coeffs (Value res ! 1) ! i ! j = Coeffs (Value ct ! 1) ! i ! j"
    if i: "i < k" and j: "j < N r" for i j
  proof -
    have l: "length (Coeffs (Value ct ! 0) ! i) = N r" "length (Coeffs combined ! i) = N r"
      "i < length (Coeffs (Value ct ! 0))" "i < length (Coeffs combined)" "i < length (Modulus r)"
      using c0(1) sh(1,2) i by (simp_all add: sizedAt_def)
    have b: "Coeffs (Value ct ! 0) ! i ! j < Modulus r ! i" "Coeffs combined ! i ! j < Modulus r ! i"
      using c0(2) sh(3) l j by (simp_all add: reducedPoly_def)
    have q: "Modulus r ! i < 2 ^ 63" using r l by (simp add: wfRing_def)
    from p i j have "Coeffs (Value res ! 0) ! i ! j =
           CRed (u64 (Coeffs (Value ct ! 0) ! i ! j + Coeffs combined ! i ! j)) (Modulus r ! i) \<and>
         Coeffs (Value res ! 1) ! i ! j = Coeffs (Value ct ! 1) ! i ! j"
      by blast
    then show ?thesis by (simp add: CRed_add_mod [OF b q])
  qed
  from p have "Scale res = Scale ct" "IsNTT res = IsNTT ctOut"
    "length (Value res) = length (Value ctOut)" "drop 2 (Value res) = drop 2 (Value ctOut)"
    "drop k (Coeffs (Value res ! 0)) = drop k (Coeffs (Value ctOut ! 0))"
    "drop k (Coeffs (Value res ! 1)) = drop k (Coeffs (Value ctOut ! 1))"
    by blast+
  with e k vals show ?thesis by blast
qed

section \<open>Claim C3: the final key switch\<close>

text \<open>
  Claim C3. \<open>KeySwitch\<close> returns exactly when the ciphertext and the receiver have two
  polynomials, the ring has a modulus for each of the first \<open>ct.Level() + 1\<close> rows, and
  \<open>ct[0]\<close>, \<open>ct[1]\<close>, the combined share and the two components of the receiver have at
  least that many rows of at least \<open>N\<close> entries; in every other case it panics with an
  index out of range. When it returns, the output carries the input ciphertext's scale;
  over the first \<open>ct.Level() + 1\<close> residue rows its first component is \<open>ct[0]\<close> plus the
  combined share, added pointwise and reduced by \<open>CRed\<close>, and its second component is
  \<open>ct[1]\<close>; the other entries of these rows, the rows above that level and the polynomials
  beyond the second are the receiver's own. On a ciphertext of \<open>k\<close> rows with \<open>ct[0]\<close>
  reduced, a reduced share of at least \<open>k\<close> rows (a share allocated over the full chain of
  moduli, for a ciphertext at any level) and a receiver with room for \<open>k\<close> rows over a
  well-formed ring, the call returns and the first component holds the sums modulo the
  modulus of each row. With a ciphertext of degree one, a share and a receiver of one
  size, the second component then equals \<open>ct[1]\<close> as a whole.
\<close>

theorem KeySwitch_spec:
  "(((\<exists>out. KeySwitch cks combined ct ctOut = Inr out) \<longleftrightarrow>
      2 \<le> length (Value ct) \<and> 2 \<le> length (Value ctOut) \<and>
      rowCount (Level ct) \<le> length (Modulus (ringQ (dckksContext cks))) \<and>
      roomFor (ringQ (dckksContext cks)) (rowCount (Level ct)) (Value ct ! 0) \<and>
      roomFor (ringQ (dckksContext cks)) (rowCount (Level ct)) combined \<and>
      roomFor (ringQ (dckksContext cks)) (rowCount (Level ct)) (Value ctOut ! 0) \<and>
      roomFor (ringQ (dckksContext cks)) (rowCount (Level ct)) (Value ct ! 1) \<and>
      roomFor (ringQ (dckksContext cks)) (rowCount (Level ct)) (Value ctOut ! 1)) \<and>
    ((\<forall>out. KeySwitch cks combined ct ctOut \<noteq> Inr out) \<longleftrightarrow>
      KeySwitch cks combined ct ctOut = Inl (Panic ''index out of range''))) \<and>
   (KeySwitch cks combined ct ctOut = Inr out \<longrightarrow>
     (\<forall>i<rowCount (Level ct).
        length (Coeffs (Value out ! 0) ! i) = length (Coeffs (Value ctOut ! 0) ! i) \<and>
        drop (N (ringQ (dckksContext cks))) (Coeffs (Value out ! 0) ! i) =
          drop (N (ringQ (dckksContext cks))) (Coeffs (Value ctOut ! 0) ! i) \<and>
        length (Coeffs (Value out ! 1) ! i) = length (Coeffs (Value ctOut ! 1) ! i) \<and>
        drop (N (ringQ (dckksContext cks))) (Coeffs (Value out ! 1) ! i) =
          drop (N (ringQ (dckksContext cks))) (Coeffs (Value ctOut ! 1) ! i))) \<and>
   (wfRing (ringQ (dckksContext cks)) \<and> 2 \<le> length (Value ct) \<and> 2 \<le> length (Value ctOut) \<and>
    sizedAt (ringQ (dckksContext cks)) k (Value ct ! 0) \<and>
    reducedPoly (ringQ (dckksContext cks)) (Value ct ! 0) \<and>
    roomFor (ringQ (dckksContext cks)) k (Value ct ! 1) \<and>
    sizedAt (ringQ (dckksContext cks)) kc combined \<and> k \<le> kc \<and>
    reducedPoly (ringQ (dckksContext cks)) combined \<and>
    roomFor (ringQ (dckksContext cks)) k (Value ctOut ! 0) \<and>
    roomFor (ringQ (dckksContext cks)) k (Value ctOut ! 1) \<longrightarrow>
      (\<exists>res. KeySwitch cks combined ct ctOut = Inr res \<and> rowCount (Level ct) = k \<and>
         Scale res = Scale ct \<and> IsNTT res = IsNTT ctOut \<and>
         length (Value res) = length (Value ctOut) \<and> drop 2 (Value res) = drop 2 (Value ctOut) \<and>
         (\<forall>i<k. \<forall>j<N (ringQ (dckksContext cks)).
            Coeffs (Value res ! 0) ! i ! j =
              (Coeffs (Value ct ! 0) ! i ! j + Coeffs combined ! i ! j) mod
                (Modulus (ringQ (dckksContext cks)) ! i) \<and>
            Coeffs (Value res ! 1) ! i ! j = Coeffs (Value ct ! 1) ! i ! j) \<and>
         drop k (Coeffs (Value res ! 0)) = drop k (Coeffs (Value ctOut ! 0)) \<and>
         drop k (Coeffs (Value res ! 1)) = drop k (Coeffs (Value ctOut ! 1)))) \<and>
   ((KeySwitch cks combined ct ctOut = Inr out \<longrightarrow>
      Scale out = Scale ct \<and> IsNTT out = IsNTT ctOut \<and>
      length (Value out) = length (Value ctOut) \<and> 2 \<le> length (Value out) \<and>
      drop 2 (Value out) = drop 2 (Value ctOut) \<and>
      Spare (Value out ! 0) = Spare (Value ctOut ! 0) \<and> Spare (Value out ! 1) = Spare (Value ctOut ! 1) \<and>
      (\<forall>i<rowCount (Level ct). \<forall>j<N (ringQ (dckksContext cks)).
         Coeffs (Value out ! 0) ! i ! j =
           CRed (u64 (Coeffs (Value ct ! 0) ! i ! j + Coeffs combined ! i ! j))
             (Modulus (ringQ (dckksContext cks)) ! i) \<and>
         Coeffs (Value out ! 1) ! i ! j = Coeffs (Value ct ! 1) ! i ! j) \<and>
      drop (rowCount (Level ct)) (Coeffs (Value out ! 0)) =
        drop (rowCount (Level ct)) (Coeffs (Value ctOut ! 0)) \<and>
      drop (rowCount (Level ct)) (Coeffs (Value out ! 1)) =
        drop (rowCount (Level ct)) (Coeffs (Value ctOut ! 1))) \<and>
   (wfRing (ringQ (dckksContext cks)) \<and> length (Value ct) = 2 \<and> length (Value ctOut) = 2 \<and>
    sizedAt (ringQ (dckksContext cks)) k (Value ct ! 0) \<and>
    reducedPoly (ringQ (dckksContext cks)) (Value ct ! 0) \<and>
    sizedAt (ringQ (dckksContext cks)) k (Value ct ! 1) \<and>
    sizedAt (ringQ (dckksContext cks)) k combined \<and>
    reducedPoly (ringQ (dckksContext cks)) combined \<and>
    sizedAt (ringQ (dckksContext cks)) k (Value ctOut ! 0) \<and>
    sizedAt (ringQ (dckksContext cks)) k (Value ctOut ! 1) \<longrightarrow>
      (\<exists>res. KeySwitch cks combined ct ctOut = Inr res \<and> Scale res = Scale ct \<and>
         length (Value res) = 2 \<and>
         Coeffs (Value res ! 1) = Coeffs (Value ct ! 1) \<and>
         length (Coeffs (Value res ! 0)) = k \<and>
         (\<forall>i<k. length (Coeffs (Value res ! 0) ! i) = N (ringQ (dckksContext cks)) \<and>
            (\<forall>j<N (ringQ (dckksContext cks)).
               Coeffs (Value res ! 0) ! i ! j =
                 (Coeffs (Value ct ! 0) ! i ! j + Coeffs combined ! i ! j) mod
                   (Modulus (ringQ (dckksContext cks)) ! i))))))"
  (is "?A \<and> ?B \<and> ?C \<and> ?D")
proof -
  have a: ?A by (rule KeySwitch_returns)
  have b: ?B by (rule KeySwitch_rows)
  have c: ?C using KeySwitch_general [of cks ct ctOut k kc combined] by blast
  have d: ?D by (rule KeySwitch_parts)
  show ?thesis by (rule conjI [OF a conjI [OF b conjI [OF c d]]])
qed

lemmas ks_eval = KeySwitch_def idx_def bindF_simps AddLvl_closed CopyLvl_closed Level_def
  rowCount_lastIndex lvlOk_def lvlRes_def ex_defs exCt_def exOut_def exCtLow_def exOutWide_def
  ex_all CRed_def u64_def

lemma KeySwitch_eval:
  "KeySwitch exCKS exShare2 exCt exOut =
     Inr \<lparr>Value = [\<lparr>Coeffs = [[0, 3], [1, 2]], Spare = []\<rparr>, exShare3], Scale = 1024, IsNTT = True\<rparr>"
  "KeySwitch exCKS exShare2 exCtLow exOutWide =
     Inr \<lparr>Value = [\<lparr>Coeffs = [[3, 3, 9], [8, 8, 8]], Spare = []\<rparr>,
                  \<lparr>Coeffs = [[2, 1], [8, 8], [7, 7]], Spare = []\<rparr>], Scale = 8, IsNTT = False\<rparr>"
  "KeySwitch exCKS exShort exCt exOut = Inl (Panic ''index out of range'')"
  by (simp_all add: ks_eval)

lemma ex_wf3:
  "2 \<le> length (Value exCtLow) \<and> 2 \<le> length (Value exOutWide) \<and>
   sizedAt exRing 1 (Value exCtLow ! 0) \<and> reducedPoly exRing (Value exCtLow ! 0) \<and>
   roomFor exRing 1 (Value exCtLow ! 1) \<and> sizedAt exRing 2 exShare2 \<and> (1::nat) \<le> 2 \<and>
   reducedPoly exRing exShare2 \<and>
   roomFor exRing 1 (Value exOutWide ! 0) \<and> roomFor exRing 1 (Value exOutWide ! 1)"
  by (simp add: sizedAt_def reducedPoly_def roomFor_def ex_defs exCtLow_def exOutWide_def ex_all)

theorem KeySwitch_spec_witness:
  "KeySwitch exCKS exShare2 exCt exOut =
     Inr \<lparr>Value = [\<lparr>Coeffs = [[0, 3], [1, 2]], Spare = []\<rparr>, exShare3], Scale = 1024, IsNTT = True\<rparr> \<and>
   Scale \<lparr>Value = [\<lparr>Coeffs = [[0, 3], [1, 2]], Spare = []\<rparr>, exShare3], Scale = 1024, IsNTT = True\<rparr>
     = Scale exCt \<and>
   (\<exists>res. KeySwitch exCKS exShare2 exCt exOut = Inr res \<and> Scale res = Scale exCt \<and>
      Coeffs (Value res ! 1) = Coeffs (Value exCt ! 1)) \<and>
   KeySwitch exCKS exShare2 exCtLow exOutWide =
     Inr \<lparr>Value = [\<lparr>Coeffs = [[3, 3, 9], [8, 8, 8]], Spare = []\<rparr>,
                  \<lparr>Coeffs = [[2, 1], [8, 8], [7, 7]], Spare = []\<rparr>], Scale = 8, IsNTT = False\<rparr> \<and>
   (\<exists>res. KeySwitch exCKS exShare2 exCtLow exOutWide = Inr res \<and> rowCount (Level exCtLow) = 1 \<and>
      Scale res = Scale exCtLow \<and>
      drop 1 (Coeffs (Value res ! 0)) = drop 1 (Coeffs (Value exOutWide ! 0)) \<and>
      drop 1 (Coeffs (Value res ! 1)) = drop 1 (Coeffs (Value exOutWide ! 1))) \<and>
   KeySwitch exCKS exShort exCt exOut = Inl (Panic ''index out of range'')"
proof -
  have q: "ringQ (dckksContext exCKS) = exRing" by (simp add: exCKS_def)
  note t = KeySwitch_spec [where cks = exCKS and combined = exShare2 and ct = exCt and ctOut = exOut
      and k = 2 and out = "\<lparr>Value = [\<lparr>Coeffs = [[0, 3], [1, 2]], Spare = []\<rparr>, exShare3],
        Scale = 1024, IsNTT = True\<rparr>", unfolded q]
  note t2 = KeySwitch_spec [where cks = exCKS and combined = exShare2 and ct = exCtLow
      and ctOut = exOutWide and k = 1 and kc = 2, unfolded q]
  note t3 = KeySwitch_spec [where cks = exCKS and combined = exShort and ct = exCt
      and ctOut = exOut, unfolded q]
  have h: "wfRing exRing \<and> length (Value exCt) = 2 \<and> length (Value exOut) = 2 \<and>
    sizedAt exRing 2 (Value exCt ! 0) \<and> reducedPoly exRing (Value exCt ! 0) \<and>
    sizedAt exRing 2 (Value exCt ! 1) \<and> sizedAt exRing 2 exShare2 \<and> reducedPoly exRing exShare2 \<and>
    sizedAt exRing 2 (Value exOut ! 0) \<and> sizedAt exRing 2 (Value exOut ! 1)"
    using ex_wf2 by (simp add: exCt_def exOut_def)
  from t KeySwitch_eval(1) have a: "Scale \<lparr>Value = [\<lparr>Coeffs = [[0, 3], [1, 2]], Spare = []\<rparr>, exShare3],
      Scale = 1024, IsNTT = True\<rparr> = Scale exCt"
    by blast
  from t h have b: "\<exists>res. KeySwitch exCKS exShare2 exCt exOut = Inr res \<and> Scale res = Scale exCt \<and>
      Coeffs (Value res ! 1) = Coeffs (Value exCt ! 1)"
    by blast
  from conjunct1 [OF conjunct2 [OF conjunct2 [OF t2]]] ex_wf2 ex_wf3
  have c: "\<exists>res. KeySwitch exCKS exShare2 exCtLow exOutWide = Inr res \<and> rowCount (Level exCtLow) = 1 \<and>
      Scale res = Scale exCtLow \<and>
      drop 1 (Coeffs (Value res ! 0)) = drop 1 (Coeffs (Value exOutWide ! 0)) \<and>
      drop 1 (Coeffs (Value res ! 1)) = drop 1 (Coeffs (Value exOutWide ! 1))"
    by blast
  have "\<not> roomFor exRing (rowCount (Level exCt)) exShort"
    by (simp add: roomFor_def Level_def rowCount_lastIndex exCt_def ex_defs)
  with conjunct1 [OF t3] have d: "KeySwitch exCKS exShort exCt exOut = Inl (Panic ''index out of range'')"
    by blast
  from a b c d KeySwitch_eval(1,2) show ?thesis by blast
qed

lemmas exSparse_defs = exSampler_def NewTernarySamplerSparse_def initializeMatrix_def exSparseRing_def
  exSparseZero_def exTapeZeroBit_def exTapeOneBit_def

lemma Len64_4: "Len64 4 = 3"
  by (simp add: Len64.simps)

section \<open>Claim C1: the sparse ternary sampler\<close>

text \<open>
  Claim C1 asks for exactly \<open>min(hw, N)\<close> nonzero coefficients, each the image of +1 or -1.
  \<open>sampleSparse\<close> indexes \<open>matrixValues[i]\<close> with the random bit itself, so a bit 0 writes
  the image of 0 and a bit 1 the image of +1; the image of -1, at index 2, is never
  written. On the sampler of weight 1 over degree 4, read into the zero polynomial with a
  sign byte 0, the result is the zero polynomial: no coefficient is nonzero although
  \<open>min(hw, N) = 1\<close>.
\<close>

theorem sampleSparse_zero_bit:
  "sampleSparse exSampler exTapeZeroBit exSparseZero = Inr (exSampler, exSparseZero, []) \<and>
   nonzeroCount (Coeffs exSparseZero ! 0) = 0 \<and>
   min (hw exSampler) (N (baseRing exSampler)) = 1"
  by (simp add: sampleSparse_def exSparse_defs Len64_4 u64_def bindF_simps nonzeroCount_def)

lemma sampleSparse_one_bit:
  "sampleSparse exSampler exTapeOneBit exSparseZero =
     Inr (exSampler, \<lparr>Coeffs = [[0, 0, 0, 1]], Spare = []\<rparr>, [])"
  by (simp add: sampleSparse_def exSparse_defs Len64_4 u64_def bindF_simps)




























section \<open>Claim C5: errors and panics of rescaling\<close>








section \<open>Claim C6: the loop of Rescale\<close>






lemma load_Some: "heap ev a = Some e \<Longrightarrow> load ev a = Inr e"
  by (simp add: load_def)



lemma RotateColumns_degree:
  assumes "heap ev ct0 = Some e0" "heap ev ctOut = Some eo" "Degree e0 \<noteq> 1 \<or> Degree eo \<noteq> 1"
  shows "RotateColumns L ev ct0 k evk ctOut =
     Inl (Panic ''cannot rotate -> input and output ciphertext must be of degree 1'')"
  using assms by (auto simp: RotateColumns_def load_Some bindF_simps)

lemma getEl_putEl: "getEl (putEl ev (User a) e) (User a) = e"
  by (simp add: getEl_def putEl_def)

lemma putEl_pools:
  "ringpool (putEl ev (User a) e) = ringpool ev" "keyswitchpool (putEl ev (User a) e) = keyswitchpool ev"
  "poolQ (putEl ev (User a) e) = poolQ ev" "poolP (putEl ev (User a) e) = poolP ev"
  "ctxpool (putEl ev (User a) e) = ctxpool ev" "ckksContext (putEl ev (User a) e) = ckksContext ev"
  "b \<noteq> a \<Longrightarrow> heap (putEl ev (User a) e) b = heap ev b"
  by (simp_all add: putEl_def)

section \<open>Claim C10: a rotation by a multiple of N/2\<close>





end
